theory Spec2Isabelle
  imports Complex_Main
begin

section \<open>Values: floating-point cells of a pandas table\<close>

text \<open>
  A cell of a pandas column of dtype float64 is a number, an infinity or NaN; pandas uses
  NaN as its marker of a missing value. The cells are modelled as the reals extended
  with the three special values. Rounding, overflow to infinity and the sign of zero are
  not modelled: a finite result is the exact real result, and zero is taken as positive
  zero when it is a divisor.
\<close>

datatype fl = NaN | NInf | PInf | Fin real

fun fl_neg :: "fl \<Rightarrow> fl" where
  "fl_neg NaN = NaN"
| "fl_neg NInf = PInf"
| "fl_neg PInf = NInf"
| "fl_neg (Fin a) = Fin (- a)"

fun fl_add :: "fl \<Rightarrow> fl \<Rightarrow> fl" where
  "fl_add NaN y = NaN"
| "fl_add x NaN = NaN"
| "fl_add PInf NInf = NaN"
| "fl_add NInf PInf = NaN"
| "fl_add PInf y = PInf"
| "fl_add x PInf = PInf"
| "fl_add NInf y = NInf"
| "fl_add x NInf = NInf"
| "fl_add (Fin a) (Fin b) = Fin (a + b)"

definition fl_sub :: "fl \<Rightarrow> fl \<Rightarrow> fl" where
  "fl_sub x y = fl_add x (fl_neg y)"

fun fl_mul :: "fl \<Rightarrow> fl \<Rightarrow> fl" where
  "fl_mul NaN y = NaN"
| "fl_mul x NaN = NaN"
| "fl_mul (Fin a) (Fin b) = Fin (a * b)"
| "fl_mul (Fin a) PInf = (if a = 0 then NaN else if 0 < a then PInf else NInf)"
| "fl_mul (Fin a) NInf = (if a = 0 then NaN else if 0 < a then NInf else PInf)"
| "fl_mul PInf (Fin b) = (if b = 0 then NaN else if 0 < b then PInf else NInf)"
| "fl_mul NInf (Fin b) = (if b = 0 then NaN else if 0 < b then NInf else PInf)"
| "fl_mul PInf PInf = PInf"
| "fl_mul PInf NInf = NInf"
| "fl_mul NInf PInf = NInf"
| "fl_mul NInf NInf = PInf"

text \<open>
  Division as numpy does it on float64 arrays: a division by zero raises nothing, it
  gives an infinity (or NaN for 0/0).
\<close>

fun fl_div :: "fl \<Rightarrow> fl \<Rightarrow> fl" where
  "fl_div NaN y = NaN"
| "fl_div x NaN = NaN"
| "fl_div (Fin a) (Fin b) =
     (if b = 0 then (if a = 0 then NaN else if 0 < a then PInf else NInf)
      else Fin (a / b))"
| "fl_div (Fin a) PInf = Fin 0"
| "fl_div (Fin a) NInf = Fin 0"
| "fl_div PInf (Fin b) = (if 0 \<le> b then PInf else NInf)"
| "fl_div NInf (Fin b) = (if 0 \<le> b then NInf else PInf)"
| "fl_div PInf PInf = NaN"
| "fl_div PInf NInf = NaN"
| "fl_div NInf PInf = NaN"
| "fl_div NInf NInf = NaN"

fun fl_sqrt :: "fl \<Rightarrow> fl" where
  "fl_sqrt NaN = NaN"
| "fl_sqrt NInf = NaN"
| "fl_sqrt PInf = PInf"
| "fl_sqrt (Fin a) = (if a < 0 then NaN else Fin (sqrt a))"

text \<open>The comparisons \<open>>\<close> and \<open><\<close>: every comparison with NaN is false.\<close>

fun fl_gt :: "fl \<Rightarrow> fl \<Rightarrow> bool" where
  "fl_gt NaN y = False"
| "fl_gt x NaN = False"
| "fl_gt NInf y = False"
| "fl_gt x NInf = True"
| "fl_gt x PInf = False"
| "fl_gt PInf y = True"
| "fl_gt (Fin a) (Fin b) = (b < a)"

definition fl_lt :: "fl \<Rightarrow> fl \<Rightarrow> bool" where
  "fl_lt x y = fl_gt y x"

section \<open>Tables\<close>

text \<open>
  A DataFrame is its row index (the dates; only their order and number matter here) and
  its columns in order, each a label with the column's cells. \<open>raw_frame\<close> is what
  \<open>yf.download\<close> returns: the labels are either two-level (field, ticker) or flat.
  The labels of a table are taken to be distinct, as \<open>yf.download\<close> gives them (one
  column per field and ticker); a lookup returns the first column with the label.
\<close>

datatype exn = KeyError string | IndexError | TypeError | Raised string

record frame =
  idx :: "nat list"
  cols :: "(string \<times> fl list) list"

datatype raw_columns =
  MultiIndex "((string \<times> string) \<times> fl list) list"
| FlatIndex "(string \<times> fl list) list"

record raw_frame =
  raw_idx :: "nat list"
  raw_cols :: raw_columns

definition empty_frame :: frame where
  \<comment> \<open>\<open>pd.DataFrame()\<close>\<close>
  "empty_frame = \<lparr>idx = [], cols = []\<rparr>"

definition frame_empty :: "frame \<Rightarrow> bool" where
  \<comment> \<open>\<open>df.empty\<close>: some axis has length 0\<close>
  "frame_empty f = (idx f = [] \<or> cols f = [])"

fun raw_ncols :: "raw_columns \<Rightarrow> nat" where
  "raw_ncols (MultiIndex mc) = length mc"
| "raw_ncols (FlatIndex fc) = length fc"

definition raw_empty :: "raw_frame \<Rightarrow> bool" where
  "raw_empty r = (raw_idx r = [] \<or> raw_ncols (raw_cols r) = 0)"

definition getitem :: "frame \<Rightarrow> string \<Rightarrow> exn + fl list" where
  \<comment> \<open>\<open>df[key]\<close>\<close>
  "getitem f k = (case map_of (cols f) k of None \<Rightarrow> Inl (KeyError k) | Some c \<Rightarrow> Inr c)"

primrec set_col :: "string \<Rightarrow> 'a \<Rightarrow> (string \<times> 'a) list \<Rightarrow> (string \<times> 'a) list" where
  "set_col k c [] = [(k, c)]"
| "set_col k c (p # ps) = (if fst p = k then (k, c) # ps else p # set_col k c ps)"

definition setitem :: "frame \<Rightarrow> string \<Rightarrow> fl list \<Rightarrow> frame" where
  \<comment> \<open>\<open>df[key] = column\<close>: an existing column is replaced in place, a new one is appended\<close>
  "setitem f k c = f\<lparr>cols := set_col k c (cols f)\<rparr>"

definition rename_columns :: "(string \<times> string) list \<Rightarrow> frame \<Rightarrow> frame" where
  \<comment> \<open>\<open>df.rename(columns=m, inplace=True)\<close>\<close>
  "rename_columns m f =
     f\<lparr>cols := map (\<lambda>(k, c). (case map_of m k of None \<Rightarrow> k | Some k' \<Rightarrow> k', c)) (cols f)\<rparr>"

subsection \<open>Gap filling\<close>

fun ffill_from :: "fl \<Rightarrow> fl list \<Rightarrow> fl list" where
  "ffill_from prev [] = []"
| "ffill_from prev (x # xs) =
     (if x = NaN then prev # ffill_from prev xs else x # ffill_from x xs)"

definition ffill_col :: "fl list \<Rightarrow> fl list" where
  \<comment> \<open>forward fill: a missing cell takes the last present value above it, if any\<close>
  "ffill_col c = ffill_from NaN c"

fun bfill_col :: "fl list \<Rightarrow> fl list" where
  \<comment> \<open>backward fill: a missing cell takes the next present value below it, if any\<close>
  "bfill_col [] = []"
| "bfill_col (x # xs) =
     (let r = bfill_col xs
      in (if x = NaN then (case r of [] \<Rightarrow> NaN | y # ys \<Rightarrow> y) else x) # r)"

definition ffill :: "frame \<Rightarrow> frame" where
  "ffill f = f\<lparr>cols := map (\<lambda>(k, c). (k, ffill_col c)) (cols f)\<rparr>"

definition bfill :: "frame \<Rightarrow> frame" where
  "bfill f = f\<lparr>cols := map (\<lambda>(k, c). (k, bfill_col c)) (cols f)\<rparr>"

section \<open>ETL: \<open>load_data\<close>\<close>

definition BIG_SEVEN :: "string list" where
  "BIG_SEVEN = [''AAPL'', ''MSFT'', ''NVDA'', ''GOOGL'', ''META'', ''TSLA'', ''AMZN'']"

definition CHOSEN_FIVE :: "string list" where
  "CHOSEN_FIVE = [''JPM'', ''KO'', ''DIS'', ''XOM'', ''PFE'']"

definition MACRO_TICKERS :: "string list" where
  "MACRO_TICKERS = [''^TNX'', ''MXN=X'', ''EURUSD=X'']"

definition ALL_STOCKS :: "string list" where
  "ALL_STOCKS = BIG_SEVEN @ CHOSEN_FIVE"

definition ALL_TICKERS :: "string list" where
  "ALL_TICKERS = ALL_STOCKS @ MACRO_TICKERS"

definition rename_map :: "(string \<times> string) list" where
  "rename_map =
     [(''^TNX'', ''US_Treasury_10Y''), (''MXN=X'', ''USD_MXN''),
      (''EURUSD=X'', ''EUR_USD_Exchange'')]"

text \<open>
  The flattening of the raw table (lines 41 to 50). \<open>raw_data[field]\<close> on two-level
  labels keeps the columns of that field and drops the level. \<open>levels[0]\<close> is taken to
  hold exactly the fields that occur in the labels. In the third branch \<open>xs\<close> looks for
  a field that the first test has just found absent, and raises. On flat labels
  \<open>raw_data['Close']\<close> is a Series, on which \<open>rename(columns=...)\<close> (line 59) raises a
  TypeError, so that branch yields the error here.
\<close>

definition field_cols :: "string \<Rightarrow> ((string \<times> string) \<times> fl list) list \<Rightarrow> (string \<times> fl list) list" where
  "field_cols fld mc = map (\<lambda>((a, t), c). (t, c)) (filter (\<lambda>((a, t), c). a = fld) mc)"

definition select_close :: "raw_frame \<Rightarrow> exn + frame" where
  "select_close raw =
     (case raw_cols raw of
        MultiIndex mc \<Rightarrow>
          (if ''Close'' \<in> set (map (\<lambda>((a, t), c). a) mc)
             then Inr \<lparr>idx = raw_idx raw, cols = field_cols ''Close'' mc\<rparr>
           else if ''Adj Close'' \<in> set (map (\<lambda>((a, t), c). a) mc)
             then Inr \<lparr>idx = raw_idx raw, cols = field_cols ''Adj Close'' mc\<rparr>
           else Inl (KeyError ''Close''))
      | FlatIndex fc \<Rightarrow>
          (if ''Close'' \<in> set (map fst fc) then Inl TypeError
           else Inr \<lparr>idx = raw_idx raw, cols = fc\<rparr>))"

subsection \<open>The synthetic CETES series\<close>

text \<open>
  numpy's global generator is a state of some type \<open>'g\<close>, with the two operations the
  code uses: \<open>np.random.seed\<close>, which replaces the state by the one the seed determines,
  and the draw of one standard normal value, which advances the state.
  \<open>np.random.normal(loc, scale, n)\<close> draws \<open>n\<close> times in sequence and returns
  \<open>loc + scale * z\<close> for each draw \<open>z\<close>. The generator itself is a library and stays a
  parameter.
\<close>

record 'g np_random =
  seed :: "nat \<Rightarrow> 'g"
  gauss :: "'g \<Rightarrow> real \<times> 'g"

fun random_normal :: "'g np_random \<Rightarrow> real \<Rightarrow> real \<Rightarrow> nat \<Rightarrow> 'g \<Rightarrow> real list \<times> 'g" where
  "random_normal rng loc scale 0 g = ([], g)"
| "random_normal rng loc scale (Suc n) g =
     (let (z, g1) = gauss rng g;
          (zs, g2) = random_normal rng loc scale n g1
      in ((loc + scale * z) # zs, g2))"

definition linspace :: "real \<Rightarrow> real \<Rightarrow> nat \<Rightarrow> real list" where
  \<comment> \<open>\<open>np.linspace(start, stop, num)\<close>: \<open>num\<close> evenly spaced values, both ends included\<close>
  "linspace start stop num =
     (if num = 1 then [start]
      else map (\<lambda>i. start + real i * ((stop - start) / real (num - 1))) [0..<num])"

definition cetes_28 :: "'g np_random \<Rightarrow> nat \<Rightarrow> 'g \<Rightarrow> real list \<times> 'g" where
  \<comment> \<open>lines 70 to 74; the first argument of the result is \<open>trend + noise\<close>\<close>
  "cetes_28 rng n g0 =
     (let g = seed rng 42;
          trend = linspace 10.5 11.25 n;
          (noise, g') = random_normal rng 0 0.05 n g
      in (map2 (+) trend noise, g'))"

subsection \<open>The transformation\<close>

definition etl_derive :: "'g np_random \<Rightarrow> raw_frame \<Rightarrow> 'g \<Rightarrow> exn + frame \<times> 'g" where
  \<comment> \<open>lines 41 to 74: the table before the final cleaning\<close>
  "etl_derive rng raw g0 =
     (case select_close raw of
        Inl e \<Rightarrow> Inl e
      | Inr df0 \<Rightarrow>
          (let df1 = rename_columns rename_map df0
           in case getitem df1 ''EUR_USD_Exchange'' of
                Inl e \<Rightarrow> Inl e
              | Inr eur \<Rightarrow>
                  (let df2 = setitem df1 ''USD_EUR'' (map (fl_div (Fin 1)) eur);
                       (series, g') = cetes_28 rng (length (idx df2)) g0;
                       df3 = setitem df2 ''CETES_28'' (map Fin series)
                   in Inr (df3, g'))))"

definition etl_transform :: "'g np_random \<Rightarrow> raw_frame \<Rightarrow> 'g \<Rightarrow> exn + frame \<times> 'g" where
  \<comment> \<open>lines 41 to 78\<close>
  "etl_transform rng raw g0 =
     (case etl_derive rng raw g0 of
        Inl e \<Rightarrow> Inl e
      | Inr (df, g') \<Rightarrow> Inr (bfill (ffill df), g'))"

text \<open>
  \<open>load_data\<close> with its \<open>try\<close>/\<open>except\<close>: the result is the table, the messages shown
  with \<open>st.error\<close>, and the generator's state. A failure is the empty table.
\<close>

datatype fetch_result = Download raw_frame | DownloadRaises exn

datatype st_msg = NoDataError | CriticalEtlError exn

definition load_data :: "'g np_random \<Rightarrow> fetch_result \<Rightarrow> 'g \<Rightarrow> frame \<times> st_msg list \<times> 'g" where
  "load_data rng fetched g0 =
     (case fetched of
        DownloadRaises e \<Rightarrow> (empty_frame, [CriticalEtlError e], g0)
      | Download raw \<Rightarrow>
          (if raw_empty raw then (empty_frame, [NoDataError], g0)
           else case etl_transform rng raw g0 of
                  Inl e \<Rightarrow> (empty_frame, [CriticalEtlError e], g0)
                | Inr (df, g') \<Rightarrow> (df, [], g')))"

section \<open>Windowing: \<open>df_filtered = df.iloc[-days_window:]\<close>\<close>

text \<open>
  \<open>days_window\<close> comes from \<open>st.sidebar.slider("Dias de historia", 30, 700, 365)\<close>: an
  integer between 30 and 700. The slice \<open>[s:]\<close> follows Python: a negative start counts
  from the end and is clipped at the first row, a start that is not negative is clipped
  at the length. So \<open>[-0:]\<close> is \<open>[0:]\<close>, the whole table.
\<close>

definition slider_range :: "int \<Rightarrow> bool" where
  "slider_range v = (30 \<le> v \<and> v \<le> 700)"

definition slice_start :: "nat \<Rightarrow> int \<Rightarrow> nat" where
  "slice_start n s = (if s < 0 then nat (max 0 (int n + s)) else min (nat s) n)"

definition iloc_from :: "frame \<Rightarrow> int \<Rightarrow> frame" where
  \<comment> \<open>\<open>df.iloc[s:]\<close>\<close>
  "iloc_from f s =
     (let k = slice_start (length (idx f)) s
      in \<lparr>idx = drop k (idx f), cols = map (\<lambda>(name, c). (name, drop k c)) (cols f)\<rparr>)"

definition window :: "frame \<Rightarrow> int \<Rightarrow> frame" where
  "window df days_window = iloc_from df (- days_window)"

text \<open>
  The reading of "the trailing n rows" that the windowing is compared with: the last
  \<open>n\<close> rows, all the rows when there are fewer than \<open>n\<close>, no row when \<open>n = 0\<close>.
\<close>

definition trailing_rows :: "nat \<Rightarrow> frame \<Rightarrow> frame" where
  "trailing_rows n f =
     \<lparr>idx = drop (length (idx f) - n) (idx f),
      cols = map (\<lambda>(name, c). (name, drop (length (idx f) - n) c)) (cols f)\<rparr>"

section \<open>Rows\<close>

text \<open>
  \<open>df.iloc[i]\<close> is the row at position \<open>i\<close>, counted from the end when \<open>i\<close> is negative;
  a position outside the table raises IndexError. \<open>row[key]\<close> raises KeyError for a
  label the row does not have.
\<close>

definition iloc_row :: "frame \<Rightarrow> int \<Rightarrow> exn + (string \<times> fl) list" where
  "iloc_row f i =
     (let n = int (length (idx f));
          j = (if i < 0 then n + i else i)
      in if 0 \<le> j \<and> j < n
         then Inr (map (\<lambda>(name, c). (name, c ! nat j)) (cols f))
         else Inl IndexError)"

definition row_get :: "(string \<times> fl) list \<Rightarrow> string \<Rightarrow> exn + fl" where
  "row_get r k = (case map_of r k of None \<Rightarrow> Inl (KeyError k) | Some v \<Rightarrow> Inr v)"

definition wf_frame :: "frame \<Rightarrow> bool" where
  \<comment> \<open>every column has one cell per row of the index\<close>
  "wf_frame f = list_all (\<lambda>(name, c). length c = length (idx f)) (cols f)"

section \<open>Alerts: \<open>get_alerts\<close>\<close>

text \<open>
  The three limits are the values of the sidebar's number inputs. An alert is modelled
  by its rule and by the numbers its message interpolates (the limit, where the message
  shows it, and the current value); the message text is fixed by the rule.
\<close>

record thresholds =
  limit_usd_mxn :: real
  limit_treasury :: real
  limit_usd_eur :: real

datatype alert =
  Critico real fl      \<comment> \<open>the dollar is above the USD/MXN ceiling\<close>
| Alerta real fl       \<comment> \<open>the US bonds are above their ceiling\<close>
| Aviso fl             \<comment> \<open>the dollar is below the USD/EUR floor\<close>

definition evaluate_row :: "thresholds \<Rightarrow> (string \<times> fl) list \<Rightarrow> exn + alert list" where
  \<comment> \<open>lines 119 to 128, on the row \<open>last\<close>\<close>
  "evaluate_row th last_row =
     (case row_get last_row ''USD_MXN'' of
        Inl e \<Rightarrow> Inl e
      | Inr mxn \<Rightarrow>
          (let alerts1 = (if fl_gt mxn (Fin (limit_usd_mxn th))
                          then [Critico (limit_usd_mxn th) mxn] else [])
           in case row_get last_row ''US_Treasury_10Y'' of
                Inl e \<Rightarrow> Inl e
              | Inr tnx \<Rightarrow>
                  (let alerts2 = (if fl_gt tnx (Fin (limit_treasury th))
                                  then alerts1 @ [Alerta (limit_treasury th) tnx] else alerts1)
                   in case row_get last_row ''USD_EUR'' of
                        Inl e \<Rightarrow> Inl e
                      | Inr eur \<Rightarrow>
                          Inr (if fl_lt eur (Fin (limit_usd_eur th))
                               then alerts2 @ [Aviso eur] else alerts2))))"

definition get_alerts :: "thresholds \<Rightarrow> frame \<Rightarrow> exn + alert list" where
  "get_alerts th current_data =
     (case iloc_row current_data (- 1) of
        Inl e \<Rightarrow> Inl e
      | Inr last_row \<Rightarrow> evaluate_row th last_row)"

section \<open>KPIs: \<open>show_kpi\<close>\<close>

text \<open>
  \<open>current\<close> and \<open>prev\<close> are read once (lines 149 and 150), then \<open>show_kpi\<close> is called
  for four columns. The model returns the value and the delta that \<open>col.metric\<close> is
  given, before they are formatted to two or three decimals.
\<close>

definition show_kpi :: "(string \<times> fl) list \<Rightarrow> (string \<times> fl) list \<Rightarrow> string \<Rightarrow> exn + fl \<times> fl" where
  "show_kpi current prev key =
     (case row_get current key of
        Inl e \<Rightarrow> Inl e
      | Inr val \<Rightarrow>
          (case row_get prev key of
             Inl e \<Rightarrow> Inl e
           | Inr p \<Rightarrow> Inr (val, fl_sub val p)))"

definition kpi :: "frame \<Rightarrow> string \<Rightarrow> exn + fl \<times> fl" where
  \<comment> \<open>lines 149, 150 and one call of \<open>show_kpi\<close>\<close>
  "kpi df_filtered key =
     (case iloc_row df_filtered (- 1) of
        Inl e \<Rightarrow> Inl e
      | Inr current \<Rightarrow>
          (case iloc_row df_filtered (- 2) of
             Inl e \<Rightarrow> Inl e
           | Inr prev \<Rightarrow> show_kpi current prev key))"

definition kpi_keys :: "string list" where
  "kpi_keys = [''USD_MXN'', ''USD_EUR'', ''CETES_28'', ''US_Treasury_10Y'']"

fun kpis :: "frame \<Rightarrow> string list \<Rightarrow> exn + (fl \<times> fl) list" where
  "kpis df_filtered [] = Inr []"
| "kpis df_filtered (key # keys) =
     (case kpi df_filtered key of
        Inl e \<Rightarrow> Inl e
      | Inr v \<Rightarrow>
          (case kpis df_filtered keys of
             Inl e \<Rightarrow> Inl e
           | Inr vs \<Rightarrow> Inr (v # vs)))"

section \<open>Insights\<close>

subsection \<open>Selecting columns: \<open>df[list_of_labels]\<close>\<close>

fun pick_cols :: "(string \<times> fl list) list \<Rightarrow> string list \<Rightarrow> exn + (string \<times> fl list) list" where
  "pick_cols ps [] = Inr []"
| "pick_cols ps (k # ks) =
     (case map_of ps k of
        None \<Rightarrow> Inl (KeyError k)
      | Some c \<Rightarrow>
          (case pick_cols ps ks of
             Inl e \<Rightarrow> Inl e
           | Inr r \<Rightarrow> Inr ((k, c) # r)))"

definition getitems :: "frame \<Rightarrow> string list \<Rightarrow> exn + frame" where
  "getitems f ks =
     (case pick_cols (cols f) ks of
        Inl e \<Rightarrow> Inl e
      | Inr ps \<Rightarrow> Inr \<lparr>idx = idx f, cols = ps\<rparr>)"

subsection \<open>Volatility (line 225)\<close>

text \<open>
  \<open>pct_change\<close> gives \<open>x[i] / x[i-1] - 1\<close>, with NaN in the first row. (Older pandas
  forward-fills the column first; on a column without gaps, or with nothing but gaps,
  that changes nothing.) \<open>std\<close> is the sample standard deviation (\<open>ddof = 1\<close>) of the
  cells that are not NaN, and NaN when there are fewer than two of them.
\<close>

fun pct_change_col :: "fl list \<Rightarrow> fl list" where
  "pct_change_col [] = []"
| "pct_change_col (x # xs) =
     NaN # map2 (\<lambda>prev cur. fl_sub (fl_div cur prev) (Fin 1)) (x # xs) xs"

definition fl_sum :: "fl list \<Rightarrow> fl" where
  "fl_sum xs = foldr fl_add xs (Fin 0)"

definition std_col :: "fl list \<Rightarrow> fl" where
  "std_col c =
     (let xs = filter (\<lambda>x. x \<noteq> NaN) c;
          n = length xs
      in if n \<le> 1 then NaN
         else (let avg = fl_div (fl_sum xs) (Fin (real n));
                   sqr = fl_sum (map (\<lambda>x. fl_mul (fl_sub avg x) (fl_sub avg x)) xs)
               in fl_sqrt (fl_div sqr (Fin (real (n - 1))))))"

definition volatility_col :: "fl list \<Rightarrow> fl" where
  "volatility_col c = fl_mul (fl_mul (std_col (pct_change_col c)) (Fin (sqrt 252))) (Fin 100)"

definition volatility :: "frame \<Rightarrow> exn + (string \<times> fl) list" where
  "volatility df_filtered =
     (case getitems df_filtered ALL_STOCKS of
        Inl e \<Rightarrow> Inl e
      | Inr stocks \<Rightarrow> Inr (map (\<lambda>(name, c). (name, volatility_col c)) (cols stocks)))"

subsection \<open>Relative performance (lines 253 to 257)\<close>

text \<open>
  \<open>frame / frame.iloc[0] * 100\<close> divides every column by its own first cell; \<open>.iloc[0]\<close>
  raises IndexError on a table without rows. \<open>mean(axis=1)\<close> is the mean, row by row,
  of the cells that are not NaN, and NaN for a row that has none.
\<close>

definition norm_col :: "fl \<Rightarrow> fl list \<Rightarrow> fl list" where
  "norm_col v0 c = map (\<lambda>x. fl_mul (fl_div x v0) (Fin 100)) c"

definition base100_col :: "fl list \<Rightarrow> fl list" where
  "base100_col c = (case c of [] \<Rightarrow> [] | v0 # rest \<Rightarrow> norm_col v0 c)"

definition base100 :: "frame \<Rightarrow> exn + frame" where
  "base100 f =
     (if idx f = [] then Inl IndexError
      else Inr \<lparr>idx = idx f, cols = map (\<lambda>(name, c). (name, base100_col c)) (cols f)\<rparr>)"

definition row_mean :: "fl list \<Rightarrow> fl" where
  "row_mean r = (let xs = filter (\<lambda>x. x \<noteq> NaN) r in fl_div (fl_sum xs) (Fin (real (length xs))))"

definition mean_axis1 :: "frame \<Rightarrow> fl list" where
  "mean_axis1 f = map (\<lambda>i. row_mean (map (\<lambda>(name, c). c ! i) (cols f))) [0..<length (idx f)]"

definition index_tradicional :: "frame \<Rightarrow> exn + fl list" where
  \<comment> \<open>lines 253 and 254, right-hand side\<close>
  "index_tradicional df_filtered =
     (case getitems df_filtered CHOSEN_FIVE of
        Inl e \<Rightarrow> Inl e
      | Inr chosen \<Rightarrow>
          (case base100 chosen of
             Inl e \<Rightarrow> Inl e
           | Inr chosen_norm \<Rightarrow> Inr (mean_axis1 chosen_norm)))"

definition index_nvda :: "frame \<Rightarrow> exn + fl list" where
  \<comment> \<open>line 257, right-hand side\<close>
  "index_nvda df_filtered =
     (case getitem df_filtered ''NVDA'' of
        Inl e \<Rightarrow> Inl e
      | Inr nvda \<Rightarrow>
          (case nvda of
             [] \<Rightarrow> Inl IndexError
           | v0 # rest \<Rightarrow> Inr (norm_col v0 nvda)))"

definition relative_performance :: "frame \<Rightarrow> exn + frame" where
  \<comment> \<open>lines 253 to 257 on a table taken as a value\<close>
  "relative_performance df_filtered =
     (case index_tradicional df_filtered of
        Inl e \<Rightarrow> Inl e
      | Inr it \<Rightarrow>
          (let df1 = setitem df_filtered ''Index_Tradicional'' it
           in case index_nvda df1 of
                Inl e \<Rightarrow> Inl e
              | Inr nv \<Rightarrow> Inr (setitem df1 ''Index_NVDA'' nv)))"

section \<open>Tables as objects in a store\<close>

text \<open>
  A pandas DataFrame is a mutable object, and \<open>df.iloc[-n:]\<close> does not copy the cells:
  it makes a new DataFrame object whose columns are views into the buffers of \<open>df\<close>. To
  state what the assignments of lines 254 and 257 do to \<open>df\<close>, the store holds both the
  buffers and the table objects. A variable of the script is a reference into the store.
  A table object lists its labels, each with a view (buffer, offset, length).
  \<open>obj[key] = column\<close> changes the object that the reference names, in place, for every
  variable that names it: it puts the column in a new buffer and makes the label point
  to it (a new label is appended). It writes into no existing buffer.
\<close>

record col_view =
  base :: nat
  off :: nat
  len :: nat

record frame_obj =
  o_idx :: "nat list"
  o_cols :: "(string \<times> col_view) list"

record store =
  bufs :: "nat \<Rightarrow> fl list"
  next_buf :: nat
  objs :: "nat \<Rightarrow> frame_obj"
  next_obj :: nat

definition read_view :: "store \<Rightarrow> col_view \<Rightarrow> fl list" where
  "read_view s v = take (len v) (drop (off v) (bufs s (base v)))"

definition deref :: "store \<Rightarrow> nat \<Rightarrow> frame" where
  \<comment> \<open>the table that the object at a reference holds\<close>
  "deref s p =
     \<lparr>idx = o_idx (objs s p),
      cols = map (\<lambda>(name, v). (name, read_view s v)) (o_cols (objs s p))\<rparr>"

definition alloc :: "store \<Rightarrow> fl list \<Rightarrow> nat \<times> store" where
  \<comment> \<open>a new buffer\<close>
  "alloc s c = (next_buf s, s\<lparr>bufs := (bufs s)(next_buf s := c), next_buf := Suc (next_buf s)\<rparr>)"

definition new_obj :: "store \<Rightarrow> frame_obj \<Rightarrow> nat \<times> store" where
  \<comment> \<open>a new table object\<close>
  "new_obj s r = (next_obj s, s\<lparr>objs := (objs s)(next_obj s := r), next_obj := Suc (next_obj s)\<rparr>)"

definition obj_iloc_from :: "store \<Rightarrow> nat \<Rightarrow> int \<Rightarrow> nat \<times> store" where
  \<comment> \<open>\<open>obj.iloc[st:]\<close>: a new object, with views into the same buffers\<close>
  "obj_iloc_from s p st =
     (let r = objs s p;
          k = slice_start (length (o_idx r)) st
      in new_obj s
           \<lparr>o_idx = drop k (o_idx r),
            o_cols = map (\<lambda>(name, v). (name, v\<lparr>off := off v + k, len := len v - k\<rparr>)) (o_cols r)\<rparr>)"

definition obj_window :: "store \<Rightarrow> nat \<Rightarrow> int \<Rightarrow> nat \<times> store" where
  \<comment> \<open>line 99\<close>
  "obj_window s df days_window = obj_iloc_from s df (- days_window)"

definition obj_setitem :: "store \<Rightarrow> nat \<Rightarrow> string \<Rightarrow> fl list \<Rightarrow> store" where
  \<comment> \<open>\<open>obj[key] = column\<close>, in place\<close>
  "obj_setitem s p k c =
     (let (a, s') = alloc s c;
          r = objs s' p
      in s'\<lparr>objs := (objs s')
               (p := r\<lparr>o_cols := set_col k \<lparr>base = a, off = 0, len = length c\<rparr> (o_cols r)\<rparr>)\<rparr>)"

definition obj_relative_performance :: "store \<Rightarrow> nat \<Rightarrow> exn option \<times> store" where
  \<comment> \<open>lines 253 to 257 on the object \<open>df_filtered\<close>; an exception leaves what was done\<close>
  "obj_relative_performance s df_filtered =
     (case index_tradicional (deref s df_filtered) of
        Inl e \<Rightarrow> (Some e, s)
      | Inr it \<Rightarrow>
          (let s1 = obj_setitem s df_filtered ''Index_Tradicional'' it
           in case index_nvda (deref s1 df_filtered) of
                Inl e \<Rightarrow> (Some e, s1)
              | Inr nv \<Rightarrow> (None, obj_setitem s1 df_filtered ''Index_NVDA'' nv)))"

definition obj_ok :: "store \<Rightarrow> nat \<Rightarrow> bool" where
  \<comment> \<open>the reference names an object of the store, whose views lie in allocated buffers\<close>
  "obj_ok s p =
     (p < next_obj s \<and> list_all (\<lambda>(name, v). base v < next_buf s) (o_cols (objs s p)))"

section \<open>The script\<close>

text \<open>
  One run of the script, from the download to the insights: \<open>load_data\<close>, the test
  \<open>if df.empty: st.stop()\<close>, the window, the alerts, the KPIs, the volatility and the
  relative performance. The charts and the widgets that only draw are left out. An
  exception outside \<open>load_data\<close> is not caught by the script.
\<close>

record page =
  p_window :: frame
  p_alerts :: "alert list"
  p_kpis :: "(fl \<times> fl) list"
  p_volatility :: "(string \<times> fl) list"
  p_performance :: frame

datatype outcome =
  Stopped "st_msg list"
| Uncaught "st_msg list" exn
| Shown "st_msg list" page

definition script ::
  "'g np_random \<Rightarrow> fetch_result \<Rightarrow> 'g \<Rightarrow> int \<Rightarrow> thresholds \<Rightarrow> outcome" where
  "script rng fetched g0 days_window th =
     (case load_data rng fetched g0 of
        (df, msgs, g1) \<Rightarrow>
          if frame_empty df then Stopped msgs
          else (let df_filtered = window df days_window
                in case get_alerts th df_filtered of
                     Inl e \<Rightarrow> Uncaught msgs e
                   | Inr active_alerts \<Rightarrow>
                       (case kpis df_filtered kpi_keys of
                          Inl e \<Rightarrow> Uncaught msgs e
                        | Inr ks \<Rightarrow>
                            (case volatility df_filtered of
                               Inl e \<Rightarrow> Uncaught msgs e
                             | Inr vol \<Rightarrow>
                                 (case relative_performance df_filtered of
                                    Inl e \<Rightarrow> Uncaught msgs e
                                  | Inr perf \<Rightarrow>
                                      Shown msgs
                                        \<lparr>p_window = df_filtered, p_alerts = active_alerts,
                                         p_kpis = ks, p_volatility = vol,
                                         p_performance = perf\<rparr>)))))"

section \<open>Example inputs\<close>

text \<open>
  A small generator, to run the model on concrete tables: its state is a counter, the
  seed sets the counter, and a draw returns a value between -2 and 2 and counts on.
\<close>

definition demo_rng :: "nat np_random" where
  "demo_rng = \<lparr>seed = (\<lambda>s. s), gauss = (\<lambda>g. (real (g mod 5) - 2, Suc g))\<rparr>"

definition raw_failed_ticker :: raw_frame where
  \<comment> \<open>two days; the download of one ticker failed, its column is all NaN\<close>
  "raw_failed_ticker =
     \<lparr>raw_idx = [0, 1],
      raw_cols = MultiIndex
        [((''Close'', ''AAPL''), [NaN, NaN]),
         ((''Close'', ''EURUSD=X''), [Fin 1.25, Fin 1.6])]\<rparr>"

definition raw_gappy :: raw_frame where
  \<comment> \<open>three days, with gaps at different places and a second field\<close>
  "raw_gappy =
     \<lparr>raw_idx = [0, 1, 2],
      raw_cols = MultiIndex
        [((''Close'', ''AAPL''), [NaN, Fin 10, NaN]),
         ((''Close'', ''EURUSD=X''), [Fin 1.25, NaN, Fin 1.6]),
         ((''Volume'', ''AAPL''), [Fin 5, Fin 6, Fin 7])]\<rparr>"

definition df_gappy :: frame where
  "df_gappy =
     \<lparr>idx = [0, 1, 2],
      cols =
        [(''AAPL'', [Fin 10, Fin 10, Fin 10]),
         (''EUR_USD_Exchange'', [Fin 1.25, Fin 1.25, Fin 1.6]),
         (''USD_EUR'', [Fin 0.8, Fin 0.8, Fin 0.625]),
         (''CETES_28'', [Fin 10.5, Fin 10.925, Fin 11.35])]\<rparr>"

definition raw_adj_close :: raw_frame where
  \<comment> \<open>three other days; the only field is the fallback, \<open>Adj Close\<close>\<close>
  "raw_adj_close =
     \<lparr>raw_idx = [5, 6, 7],
      raw_cols = MultiIndex [((''Adj Close'', ''EURUSD=X''), [Fin 2, Fin 4, Fin 5])]\<rparr>"

definition spec_thresholds :: thresholds where
  \<comment> \<open>the defaults of the three number inputs (lines 102 to 104)\<close>
  "spec_thresholds = \<lparr>limit_usd_mxn = 20.5, limit_treasury = 4.5, limit_usd_eur = 0.90\<rparr>"

definition df_stressed :: frame where
  \<comment> \<open>two days; on the last one all three rules hold\<close>
  "df_stressed =
     \<lparr>idx = [0, 1],
      cols = [(''USD_MXN'', [Fin 20, Fin 21]), (''US_Treasury_10Y'', [Fin 4, Fin 5]),
              (''USD_EUR'', [Fin 0.95, Fin 0.85])]\<rparr>"

definition df_calm :: frame where
  \<comment> \<open>one day, every value inside its limit\<close>
  "df_calm =
     \<lparr>idx = [0],
      cols = [(''USD_MXN'', [Fin 20]), (''US_Treasury_10Y'', [Fin 4]),
              (''USD_EUR'', [Fin 0.95])]\<rparr>"

definition df_growth :: frame where
  \<comment> \<open>31 days; NVDA is 1 on the first day and 2 on every later day\<close>
  "df_growth = \<lparr>idx = [0..<31], cols = [(''NVDA'', Fin 1 # replicate 30 (Fin 2))]\<rparr>"

definition raw_nothing :: raw_frame where
  \<comment> \<open>what the download returns when it got no data: no row and no column\<close>
  "raw_nothing = \<lparr>raw_idx = [], raw_cols = MultiIndex []\<rparr>"

definition df_two_days :: frame where
  \<comment> \<open>two days; every stock goes from 1 to 2\<close>
  "df_two_days = \<lparr>idx = [0, 1], cols = map (\<lambda>name. (name, [Fin 1, Fin 2])) ALL_STOCKS\<rparr>"

definition demo_df :: frame_obj where
  \<comment> \<open>the five traditional stocks and NVDA over 31 days, one buffer each\<close>
  "demo_df =
     \<lparr>o_idx = [0..<31],
      o_cols =
        [(''JPM'', \<lparr>base = 0, off = 0, len = 31\<rparr>), (''KO'', \<lparr>base = 1, off = 0, len = 31\<rparr>),
         (''DIS'', \<lparr>base = 2, off = 0, len = 31\<rparr>), (''XOM'', \<lparr>base = 3, off = 0, len = 31\<rparr>),
         (''PFE'', \<lparr>base = 4, off = 0, len = 31\<rparr>), (''NVDA'', \<lparr>base = 5, off = 0, len = 31\<rparr>)]\<rparr>"

definition demo_store :: store where
  \<comment> \<open>one table object, at reference 0, and six buffers of 31 cells: buffer \<open>a\<close> holds 1
      on the first day and \<open>a + 2\<close> on every later day\<close>
  "demo_store =
     \<lparr>bufs = (\<lambda>a. Fin 1 # replicate 30 (Fin (real a + 2))), next_buf = 6,
      objs = (\<lambda>p. demo_df), next_obj = 1\<rparr>"

definition raw_no_eur :: raw_frame where
  \<comment> \<open>one day of one stock; the EUR/USD column is not there\<close>
  "raw_no_eur = \<lparr>raw_idx = [0], raw_cols = MultiIndex [((''Close'', ''AAPL''), [Fin 1])]\<rparr>"

definition m_gappy :: frame where
  \<comment> \<open>the table that \<open>raw_gappy\<close> gives before the final cleaning\<close>
  "m_gappy =
     \<lparr>idx = [0, 1, 2],
      cols =
        [(''AAPL'', [NaN, Fin 10, NaN]),
         (''EUR_USD_Exchange'', [Fin 1.25, NaN, Fin 1.6]),
         (''USD_EUR'', [Fin 0.8, NaN, Fin 0.625]),
         (''CETES_28'', [Fin 10.5, Fin 10.925, Fin 11.35])]\<rparr>"

section \<open>Properties of gap filling\<close>

lemma ffill_from_no_nan: "prev \<noteq> NaN \<Longrightarrow> NaN \<notin> set (ffill_from prev c)"
  by (induction c arbitrary: prev) auto

lemma bfill_col_nan_free: "NaN \<notin> set c \<Longrightarrow> bfill_col c = c"
  by (induction c) (auto simp: Let_def)

lemma bfill_col_length: "length (bfill_col c) = length c"
  by (induction c) (auto simp: Let_def)

lemma bfill_col_all_nan: "set c \<subseteq> {NaN} \<Longrightarrow> bfill_col c = c"
  by (induction c) (auto simp: Let_def split: list.splits)

lemma ffill_from_all_nan: "set c \<subseteq> {NaN} \<Longrightarrow> ffill_from NaN c = c"
  by (induction c) auto

lemma ffill_col_shape:
  "\<exists>k r. ffill_from NaN c = replicate k NaN @ r \<and> NaN \<notin> set r \<and> (r = [] \<longleftrightarrow> set c \<subseteq> {NaN})"
proof (induction c)
  case Nil
  then show ?case by simp
next
  case (Cons x xs)
  show ?case
  proof (cases "x = NaN")
    case True
    from Cons.IH obtain k r where h: "ffill_from NaN xs = replicate k NaN @ r" "NaN \<notin> set r"
      "(r = [] \<longleftrightarrow> set xs \<subseteq> {NaN})" by blast
    have "ffill_from NaN (x # xs) = replicate (Suc k) NaN @ r" using True h(1) by simp
    with h True show ?thesis by (metis insert_subset list.simps(15) singletonI)
  next
    case False
    have "ffill_from NaN (x # xs) = replicate 0 NaN @ (x # ffill_from x xs)" using False by simp
    moreover have "NaN \<notin> set (x # ffill_from x xs)" using False ffill_from_no_nan[of x xs] by auto
    moreover have "\<not> set (x # xs) \<subseteq> {NaN}" using False by auto
    ultimately show ?thesis by blast
  qed
qed

lemma bfill_col_prefix:
  "NaN \<notin> set r \<Longrightarrow> r \<noteq> [] \<Longrightarrow> NaN \<notin> set (bfill_col (replicate k NaN @ r))"
proof (induction k)
  case 0
  then show ?case by (simp add: bfill_col_nan_free)
next
  case (Suc k)
  then have ih: "NaN \<notin> set (bfill_col (replicate k NaN @ r))" by simp
  have ne: "bfill_col (replicate k NaN @ r) \<noteq> []"
    using Suc.prems(2) bfill_col_length[of "replicate k NaN @ r"] by (metis Nil_is_append_conv length_0_conv)
  show ?case using ih ne by (auto simp: Let_def split: list.splits)
qed

lemma fill_col_all_nan: "set c \<subseteq> {NaN} \<Longrightarrow> bfill_col (ffill_col c) = c"
  by (simp add: ffill_col_def ffill_from_all_nan bfill_col_all_nan)

lemma fill_col_some: "\<not> set c \<subseteq> {NaN} \<Longrightarrow> NaN \<notin> set (bfill_col (ffill_col c))"
proof -
  assume a: "\<not> set c \<subseteq> {NaN}"
  obtain k r where h: "ffill_from NaN c = replicate k NaN @ r" "NaN \<notin> set r"
      "(r = [] \<longleftrightarrow> set c \<subseteq> {NaN})" using ffill_col_shape by blast
  with a have "r \<noteq> []" by simp
  then show ?thesis using h bfill_col_prefix by (simp add: ffill_col_def)
qed

lemma ffill_from_length: "length (ffill_from p c) = length c"
  by (induction c arbitrary: p) auto

lemma ffill_from_present:
  "j < length c \<Longrightarrow> c ! j \<noteq> NaN \<Longrightarrow> ffill_from p c ! j = c ! j"
proof (induction c arbitrary: p j)
  case Nil
  then show ?case by simp
next
  case (Cons x xs)
  then show ?case by (cases j) auto
qed

lemma ffill_from_head_gap:
  "xs \<noteq> [] \<Longrightarrow> xs ! 0 = NaN \<Longrightarrow> ffill_from q xs ! 0 = q"
  by (cases xs) auto

lemma ffill_from_step:
  "Suc j < length c \<Longrightarrow> c ! Suc j = NaN \<Longrightarrow> ffill_from p c ! Suc j = ffill_from p c ! j"
proof (induction c arbitrary: p j)
  case Nil
  then show ?case by simp
next
  case (Cons x xs)
  show ?case
  proof (cases j)
    case 0
    with Cons.prems have "xs \<noteq> []" "xs ! 0 = NaN" by auto
    then show ?thesis using 0 by (simp add: ffill_from_head_gap)
  next
    case (Suc i)
    with Cons.prems have "Suc i < length xs" "xs ! Suc i = NaN" by auto
    from Cons.IH[OF this] show ?thesis using Suc by simp
  qed
qed

lemma ffill_from_leading:
  "j < length c \<Longrightarrow> (\<forall>i \<le> j. c ! i = NaN) \<Longrightarrow> ffill_from p c ! j = p"
proof (induction j)
  case 0
  then show ?case by (cases c) auto
next
  case (Suc j)
  then have "ffill_from p c ! Suc j = ffill_from p c ! j"
    by (intro ffill_from_step) auto
  with Suc show ?case by simp
qed

lemma ffill_from_after_data:
  "j < length c \<Longrightarrow> (\<exists>i \<le> j. c ! i \<noteq> NaN) \<Longrightarrow> ffill_from p c ! j \<noteq> NaN"
proof (induction j)
  case 0
  then show ?case by (simp add: ffill_from_present)
next
  case (Suc j)
  show ?case
  proof (cases "c ! Suc j = NaN")
    case True
    with Suc.prems(2) have "\<exists>i \<le> j. c ! i \<noteq> NaN" by (metis le_Suc_eq)
    with Suc.IH Suc.prems(1) have "ffill_from p c ! j \<noteq> NaN" by simp
    with True Suc.prems(1) show ?thesis by (simp add: ffill_from_step)
  next
    case False
    with Suc.prems(1) show ?thesis by (simp add: ffill_from_present)
  qed
qed

lemma bfill_col_present:
  "j < length d \<Longrightarrow> d ! j \<noteq> NaN \<Longrightarrow> bfill_col d ! j = d ! j"
proof (induction d arbitrary: j)
  case Nil
  then show ?case by simp
next
  case (Cons x xs)
  then show ?case by (cases j) (auto simp: Let_def)
qed

lemma bfill_col_step:
  "Suc j < length d \<Longrightarrow> d ! j = NaN \<Longrightarrow> bfill_col d ! j = bfill_col d ! Suc j"
proof (induction d arbitrary: j)
  case Nil
  then show ?case by simp
next
  case (Cons x xs)
  show ?case
  proof (cases j)
    case 0
    with Cons.prems have "xs \<noteq> []" by auto
    then have "bfill_col xs \<noteq> []" using bfill_col_length[of xs] by (metis length_0_conv)
    then obtain y ys where "bfill_col xs = y # ys" by (cases "bfill_col xs") auto
    with Cons.prems 0 show ?thesis by (simp add: Let_def)
  next
    case (Suc i)
    with Cons.prems have "Suc i < length xs" "xs ! i = NaN" by auto
    from Cons.IH[OF this] show ?thesis using Suc by (simp add: Let_def)
  qed
qed

lemma fill_col_length: "length (bfill_col (ffill_col c)) = length c"
  by (simp add: bfill_col_length ffill_col_def ffill_from_length)

lemma fill_col_present:
  "j < length c \<Longrightarrow> c ! j \<noteq> NaN \<Longrightarrow> bfill_col (ffill_col c) ! j = c ! j"
  by (simp add: ffill_col_def bfill_col_present ffill_from_present ffill_from_length)

lemma fill_col_forward:
  assumes "Suc j < length c" "c ! Suc j = NaN" "\<exists>i \<le> j. c ! i \<noteq> NaN"
  shows "bfill_col (ffill_col c) ! Suc j = bfill_col (ffill_col c) ! j"
proof -
  let ?d = "ffill_from NaN c"
  from assms(1) have j: "j < length c" by simp
  have a: "?d ! j \<noteq> NaN" using j assms(3) by (rule ffill_from_after_data)
  have b: "?d ! Suc j = ?d ! j" using assms(1,2) by (rule ffill_from_step)
  have "bfill_col ?d ! Suc j = ?d ! Suc j"
    using assms(1) a b by (simp add: bfill_col_present ffill_from_length)
  moreover have "bfill_col ?d ! j = ?d ! j"
    using j a by (simp add: bfill_col_present ffill_from_length)
  ultimately show ?thesis using b by (simp add: ffill_col_def)
qed

lemma fill_col_backward:
  assumes "Suc j < length c" "\<forall>i \<le> j. c ! i = NaN"
  shows "bfill_col (ffill_col c) ! j = bfill_col (ffill_col c) ! Suc j"
proof -
  let ?d = "ffill_from NaN c"
  from assms(1) have j: "j < length c" by simp
  have "?d ! j = NaN" using j assms(2) by (rule ffill_from_leading)
  then show ?thesis
    using assms(1) by (simp add: ffill_col_def bfill_col_step ffill_from_length)
qed

lemma fill_col_spec:
  "length (bfill_col (ffill_col c0)) = length c0 \<and>
   (set c0 \<subseteq> {NaN} \<longrightarrow> bfill_col (ffill_col c0) = c0) \<and>
   (\<not> set c0 \<subseteq> {NaN} \<longrightarrow> NaN \<notin> set (bfill_col (ffill_col c0))) \<and>
   (\<forall>j < length c0. c0 ! j \<noteq> NaN \<longrightarrow> bfill_col (ffill_col c0) ! j = c0 ! j) \<and>
   (\<forall>j. Suc j < length c0 \<and> c0 ! Suc j = NaN \<and> (\<exists>i \<le> j. c0 ! i \<noteq> NaN)
         \<longrightarrow> bfill_col (ffill_col c0) ! Suc j = bfill_col (ffill_col c0) ! j) \<and>
   (\<forall>j. Suc j < length c0 \<and> (\<forall>i \<le> j. c0 ! i = NaN)
         \<longrightarrow> bfill_col (ffill_col c0) ! j = bfill_col (ffill_col c0) ! Suc j)"
  using fill_col_length[of c0] fill_col_all_nan[of c0] fill_col_some[of c0]
    fill_col_present[of _ c0] fill_col_forward[of _ c0] fill_col_backward[of _ c0]
  by blast

section \<open>Properties of the ETL\<close>

lemmas etl_defs = load_data_def etl_transform_def etl_derive_def select_close_def
  field_cols_def rename_columns_def rename_map_def getitem_def setitem_def cetes_28_def
  linspace_def ffill_def bfill_def ffill_col_def raw_empty_def frame_empty_def
  empty_frame_def demo_rng_def

lemma upt_0_2: "[0..<2] = [0, 1]"
  by (simp add: upt_rec)

lemma upt_0_3: "[0..<3] = [0, 1, 2]"
  by (simp add: upt_rec)

lemma load_gappy: "load_data demo_rng (Download raw_gappy) 0 = (df_gappy, [], 45)"
  by (simp add: etl_defs raw_gappy_def df_gappy_def numeral_3_eq_3 upt_0_3 Let_def)

lemma cols_fill: "cols (bfill (ffill f)) = map (\<lambda>(k, c). (k, bfill_col (ffill_col c))) (cols f)"
  by (simp add: bfill_def ffill_def case_prod_unfold comp_def)

lemma idx_fill: "idx (bfill (ffill f)) = idx f"
  by (simp add: bfill_def ffill_def)

lemma set_col_nonempty: "set_col k c ps \<noteq> []"
  by (cases ps) auto

lemma map_of_set_col: "map_of (set_col k c ps) k' = (if k' = k then Some c else map_of ps k')"
  by (induction ps) auto

lemma select_close_idx: "select_close raw = Inr f \<Longrightarrow> idx f = raw_idx raw"
  by (auto simp: select_close_def split: raw_columns.splits if_splits)

lemma etl_derive_shape:
  assumes "etl_derive rng raw g0 = Inr (m, g1)"
  shows "idx m = raw_idx raw \<and> cols m \<noteq> []"
  using assms
  by (auto simp: etl_derive_def Let_def setitem_def rename_columns_def set_col_nonempty
      dest!: select_close_idx split: sum.splits prod.splits)

lemma etl_transform_cols:
  assumes "etl_transform rng raw g0 = Inr (df, g1)"
  shows "\<exists>m. etl_derive rng raw g0 = Inr (m, g1) \<and> df = bfill (ffill m)"
  using assms by (auto simp: etl_transform_def split: sum.splits)

lemma load_data_success:
  assumes "load_data rng fetched g0 = (df, msgs, g1)" "\<not> frame_empty df"
  shows "\<exists>raw m. fetched = Download raw \<and> \<not> raw_empty raw \<and> msgs = [] \<and>
           etl_derive rng raw g0 = Inr (m, g1) \<and> df = bfill (ffill m)"
proof -
  from assms obtain raw where r: "fetched = Download raw" "\<not> raw_empty raw"
    "etl_transform rng raw g0 = Inr (df, g1)" "msgs = []"
    by (auto simp: load_data_def frame_empty_def empty_frame_def
        split: fetch_result.splits if_splits sum.splits)
  with etl_transform_cols[OF r(3)] show ?thesis by blast
qed

lemma load_data_failure:
  assumes "load_data rng fetched g0 = (df, msgs, g1)" "frame_empty df"
  shows "df = empty_frame \<and> length msgs = 1"
proof -
  have False if h: "etl_transform rng raw g0 = Inr (df, g1)" "\<not> raw_empty raw" for raw
  proof -
    from etl_transform_cols[OF h(1)] obtain m where
      m: "etl_derive rng raw g0 = Inr (m, g1)" "df = bfill (ffill m)" by blast
    from etl_derive_shape[OF m(1)] h(2) have "\<not> frame_empty df"
      by (simp add: frame_empty_def m(2) idx_fill cols_fill raw_empty_def)
    with assms(2) show False by simp
  qed
  with assms(1) show ?thesis
    by (auto simp: load_data_def split: fetch_result.splits if_splits sum.splits)
qed

text \<open>
  C1 (amended): for every outcome of the download, \<open>load_data\<close> either fails, and then
  it returns the empty table with exactly one error message, or it shows no message and
  returns a table that is not empty, with the rows and the column labels of the merged
  table (the table before the final cleaning), where for every column:
  a column that has at least one present value in the merged table has no missing value
  after the forward fill followed by the backward fill; its present cells are unchanged,
  a gap below a present value takes the value of the row above it, and a gap above the
  first present value takes the value of the row below it;
  a column that is entirely missing in the merged table is returned as it is, entirely
  missing, and is not a failure.
\<close>

theorem load_data_fill:
  assumes "load_data rng fetched g0 = (df, msgs, g1)"
  shows "(df = empty_frame \<and> length msgs = 1) \<or>
         (msgs = [] \<and> \<not> frame_empty df \<and>
          (\<exists>raw m.
             fetched = Download raw \<and> etl_derive rng raw g0 = Inr (m, g1) \<and>
             idx df = idx m \<and>
             list_all2
               (\<lambda>(k0, c0) (k, c).
                  k = k0 \<and> length c = length c0 \<and>
                  (set c0 \<subseteq> {NaN} \<longrightarrow> c = c0) \<and>
                  (\<not> set c0 \<subseteq> {NaN} \<longrightarrow> NaN \<notin> set c) \<and>
                  (\<forall>j < length c0. c0 ! j \<noteq> NaN \<longrightarrow> c ! j = c0 ! j) \<and>
                  (\<forall>j. Suc j < length c0 \<and> c0 ! Suc j = NaN \<and> (\<exists>i \<le> j. c0 ! i \<noteq> NaN)
                        \<longrightarrow> c ! Suc j = c ! j) \<and>
                  (\<forall>j. Suc j < length c0 \<and> (\<forall>i \<le> j. c0 ! i = NaN) \<longrightarrow> c ! j = c ! Suc j))
               (cols m) (cols df)))"
proof (cases "frame_empty df")
  case True
  with load_data_failure[OF assms] show ?thesis by simp
next
  case False
  from load_data_success[OF assms False] obtain raw m where
    m: "fetched = Download raw" "msgs = []" "etl_derive rng raw g0 = Inr (m, g1)"
       "df = bfill (ffill m)" by blast
  have "list_all2
               (\<lambda>(k0, c0) (k, c).
                  k = k0 \<and> length c = length c0 \<and>
                  (set c0 \<subseteq> {NaN} \<longrightarrow> c = c0) \<and>
                  (\<not> set c0 \<subseteq> {NaN} \<longrightarrow> NaN \<notin> set c) \<and>
                  (\<forall>j < length c0. c0 ! j \<noteq> NaN \<longrightarrow> c ! j = c0 ! j) \<and>
                  (\<forall>j. Suc j < length c0 \<and> c0 ! Suc j = NaN \<and> (\<exists>i \<le> j. c0 ! i \<noteq> NaN)
                        \<longrightarrow> c ! Suc j = c ! j) \<and>
                  (\<forall>j. Suc j < length c0 \<and> (\<forall>i \<le> j. c0 ! i = NaN) \<longrightarrow> c ! j = c ! Suc j))
               (cols m) (cols df)"
    unfolding m(4) cols_fill list_all2_map2
    by (rule list_all2_refl) (use fill_col_spec in \<open>simp add: case_prod_unfold\<close>)
  with False m show ?thesis by (auto simp: idx_fill)
qed

lemma derive_gappy: "etl_derive demo_rng raw_gappy 0 = Inr (m_gappy, 45)"
  by (simp add: etl_defs raw_gappy_def m_gappy_def numeral_3_eq_3 upt_0_3 Let_def)

lemma list_all2_fst:
  assumes "list_all2 P xs ys" "\<And>x y. P x y \<Longrightarrow> fst y = fst x"
  shows "map fst ys = map fst xs"
  using assms by (induction rule: list_all2_induct) auto

theorem load_data_fill_witness:
  "load_data demo_rng (Download raw_gappy) 0 = (df_gappy, [], 45) \<and>
   \<not> frame_empty df_gappy \<and>
   etl_derive demo_rng raw_gappy 0 = Inr (m_gappy, 45) \<and>
   map fst (cols df_gappy) = map fst (cols m_gappy) \<and>
   list_all (\<lambda>(k, c). NaN \<notin> set c) (cols df_gappy)"
proof -
  have ne: "df_gappy \<noteq> empty_frame" "\<not> frame_empty df_gappy"
    by (simp_all add: df_gappy_def empty_frame_def frame_empty_def)
  from load_data_fill[OF load_gappy] ne(1) obtain raw m where
    m: "Download raw_gappy = Download raw" "etl_derive demo_rng raw 0 = Inr (m, 45)"
       "list_all2
               (\<lambda>(k0, c0) (k, c).
                  k = k0 \<and> length c = length c0 \<and>
                  (set c0 \<subseteq> {NaN} \<longrightarrow> c = c0) \<and>
                  (\<not> set c0 \<subseteq> {NaN} \<longrightarrow> NaN \<notin> set c) \<and>
                  (\<forall>j < length c0. c0 ! j \<noteq> NaN \<longrightarrow> c ! j = c0 ! j) \<and>
                  (\<forall>j. Suc j < length c0 \<and> c0 ! Suc j = NaN \<and> (\<exists>i \<le> j. c0 ! i \<noteq> NaN)
                        \<longrightarrow> c ! Suc j = c ! j) \<and>
                  (\<forall>j. Suc j < length c0 \<and> (\<forall>i \<le> j. c0 ! i = NaN) \<longrightarrow> c ! j = c ! Suc j))
               (cols m) (cols df_gappy)"
    by blast
  from m(1,2) derive_gappy have "m = m_gappy" by simp
  with m(3) have "map fst (cols df_gappy) = map fst (cols m_gappy)"
    by (intro list_all2_fst[OF m(3)[unfolded \<open>m = m_gappy\<close>]]) auto
  moreover have "list_all (\<lambda>(k, c). NaN \<notin> set c) (cols df_gappy)"
    by (simp add: df_gappy_def)
  ultimately show ?thesis using load_gappy ne(2) derive_gappy by simp
qed

lemma load_failed_ticker:
  "load_data demo_rng (Download raw_failed_ticker) 0 =
     (\<lparr>idx = [0, 1],
       cols = [(''AAPL'', [NaN, NaN]), (''EUR_USD_Exchange'', [Fin 1.25, Fin 1.6]),
               (''USD_EUR'', [Fin 0.8, Fin 0.625]), (''CETES_28'', [Fin 10.5, Fin 11.3])]\<rparr>,
      [], 44)"
  by (simp add: etl_defs raw_failed_ticker_def numeral_2_eq_2 upt_0_2 Let_def)

text \<open>
  C1, as stated, fails: when the download of one ticker gave nothing but NaN, \<open>load_data\<close>
  shows no error, returns a table that is not empty, and the ticker's column is still
  entirely NaN in it. Nothing in \<open>load_data\<close> looks at the columns after the filling.
\<close>

theorem load_data_all_missing_column:
  "(case load_data demo_rng (Download raw_failed_ticker) 0 of
      (df, msgs, g) \<Rightarrow>
        msgs = [] \<and> \<not> frame_empty df \<and> getitem df ''AAPL'' = Inr [NaN, NaN])"
  by (simp add: load_failed_ticker frame_empty_def getitem_def)

section \<open>The reciprocal column\<close>

lemma recip_nan: "fl_div (Fin 1) x = NaN \<longleftrightarrow> x = NaN"
  by (cases x) auto

lemma ffill_from_map:
  assumes "\<And>x. f x = NaN \<longleftrightarrow> x = NaN"
  shows "ffill_from (f p) (map f c) = map f (ffill_from p c)"
  by (induction c arbitrary: p) (simp_all add: assms)

lemma bfill_col_map:
  assumes "\<And>x. f x = NaN \<longleftrightarrow> x = NaN"
  shows "bfill_col (map f c) = map f (bfill_col c)"
proof -
  have n: "f NaN = NaN" using assms by blast
  show ?thesis
    by (induction c) (auto simp: assms n Let_def split: list.splits)
qed

lemma fill_col_recip:
  "bfill_col (ffill_col (map (fl_div (Fin 1)) c)) = map (fl_div (Fin 1)) (bfill_col (ffill_col c))"
proof -
  have "ffill_from (fl_div (Fin 1) NaN) (map (fl_div (Fin 1)) c) = map (fl_div (Fin 1)) (ffill_from NaN c)"
    by (rule ffill_from_map) (rule recip_nan)
  then show ?thesis by (simp add: ffill_col_def bfill_col_map recip_nan)
qed

lemma getitem_fill:
  "getitem (bfill (ffill m)) k =
     (case getitem m k of Inl e \<Rightarrow> Inl e | Inr c \<Rightarrow> Inr (bfill_col (ffill_col c)))"
  by (simp add: getitem_def cols_fill map_of_map split: option.splits)

lemma etl_derive_columns:
  assumes "etl_derive rng raw g0 = Inr (m, g1)"
  shows "\<exists>eur. getitem m ''EUR_USD_Exchange'' = Inr eur \<and>
               getitem m ''USD_EUR'' = Inr (map (fl_div (Fin 1)) eur) \<and>
               getitem m ''CETES_28'' = Inr (map Fin (fst (cetes_28 rng (length (raw_idx raw)) g0))) \<and>
               g1 = snd (cetes_28 rng (length (raw_idx raw)) g0)"
  using assms
  by (auto simp: etl_derive_def Let_def setitem_def getitem_def map_of_set_col rename_columns_def
      dest!: select_close_idx split: sum.splits prod.splits option.splits)

text \<open>
  C3: whenever \<open>load_data\<close> returns a table (one that is not empty), the column
  \<open>USD_EUR\<close> is, row by row, \<open>1 / EUR_USD_Exchange\<close>: in the table before the final
  cleaning, where line 66 has just computed it, and in the returned table, after the
  forward and backward fill. A missing cell of the source is a missing cell of the
  reciprocal, so both columns are filled at the same rows from the same rows.
\<close>

theorem usd_eur_reciprocal:
  assumes "load_data rng fetched g0 = (df, msgs, g1)" "\<not> frame_empty df"
  shows "\<exists>raw m eur0 eur.
           fetched = Download raw \<and> etl_derive rng raw g0 = Inr (m, g1) \<and>
           getitem m ''EUR_USD_Exchange'' = Inr eur0 \<and>
           getitem m ''USD_EUR'' = Inr (map (fl_div (Fin 1)) eur0) \<and>
           df = bfill (ffill m) \<and>
           getitem df ''EUR_USD_Exchange'' = Inr eur \<and>
           getitem df ''USD_EUR'' = Inr (map (fl_div (Fin 1)) eur)"
proof -
  from load_data_success[OF assms] obtain raw m where
    m: "fetched = Download raw" "etl_derive rng raw g0 = Inr (m, g1)" "df = bfill (ffill m)"
    by blast
  from etl_derive_columns[OF m(2)] obtain eur0 where
    e: "getitem m ''EUR_USD_Exchange'' = Inr eur0"
       "getitem m ''USD_EUR'' = Inr (map (fl_div (Fin 1)) eur0)" by blast
  have "getitem df ''EUR_USD_Exchange'' = Inr (bfill_col (ffill_col eur0))"
    by (simp add: m(3) getitem_fill e(1))
  moreover have "getitem df ''USD_EUR'' = Inr (map (fl_div (Fin 1)) (bfill_col (ffill_col eur0)))"
    by (simp add: m(3) getitem_fill e(2) fill_col_recip)
  ultimately show ?thesis using m e by blast
qed

theorem usd_eur_reciprocal_witness:
  "getitem df_gappy ''EUR_USD_Exchange'' = Inr [Fin 1.25, Fin 1.25, Fin 1.6] \<and>
   getitem df_gappy ''USD_EUR'' = Inr (map (fl_div (Fin 1)) [Fin 1.25, Fin 1.25, Fin 1.6])"
proof -
  have h: "load_data demo_rng (Download raw_gappy) 0 = (df_gappy, [], 45)"
    by (rule load_gappy)
  have ne: "\<not> frame_empty df_gappy" by (simp add: df_gappy_def frame_empty_def)
  from usd_eur_reciprocal[OF h ne] obtain eur where
    "getitem df_gappy ''EUR_USD_Exchange'' = Inr eur"
    "getitem df_gappy ''USD_EUR'' = Inr (map (fl_div (Fin 1)) eur)" by blast
  moreover have "getitem df_gappy ''EUR_USD_Exchange'' = Inr [Fin 1.25, Fin 1.25, Fin 1.6]"
    by (simp add: df_gappy_def getitem_def)
  ultimately show ?thesis by simp
qed

section \<open>The synthetic series\<close>

lemma ffill_from_nan_free: "NaN \<notin> set c \<Longrightarrow> ffill_from p c = c"
  by (induction c arbitrary: p) auto

lemma fill_col_nan_free: "NaN \<notin> set c \<Longrightarrow> bfill_col (ffill_col c) = c"
  by (simp add: ffill_col_def ffill_from_nan_free bfill_col_nan_free)

lemma linspace_length: "length (linspace a b n) = n"
  by (simp add: linspace_def)

lemma linspace_ends:
  assumes "2 \<le> n"
  shows "hd (linspace a b n) = a \<and> last (linspace a b n) = b"
proof -
  from assms have n: "n \<noteq> 1" "0 < n" "real (n - 1) \<noteq> 0" by auto
  have "hd (linspace a b n) = a"
    using n by (simp add: linspace_def hd_map upt_conv_Cons)
  moreover have "last (linspace a b n) = a + real (n - 1) * ((b - a) / real (n - 1))"
    using n(1,2) by (simp add: linspace_def last_map)
  ultimately show ?thesis using n(3) by simp
qed

lemma random_normal_length: "length (fst (random_normal rng loc scale n g)) = n"
  by (induction n arbitrary: g) (simp_all add: Let_def case_prod_unfold)

lemma cetes_28_seeded:
  "cetes_28 rng n g0 =
     (map2 (+) (linspace 10.5 11.25 n) (fst (random_normal rng 0 0.05 n (seed rng 42))),
      snd (random_normal rng 0 0.05 n (seed rng 42)))"
  by (simp add: cetes_28_def Let_def split: prod.splits)

lemma load_data_cetes:
  assumes "load_data rng fetched g0 = (df, msgs, g1)" "\<not> frame_empty df"
  shows "\<exists>raw. fetched = Download raw \<and>
          getitem df ''CETES_28'' = Inr (map Fin (fst (cetes_28 rng (length (raw_idx raw)) g0))) \<and>
          g1 = snd (cetes_28 rng (length (raw_idx raw)) g0)"
proof -
  from load_data_success[OF assms] obtain raw m where
    m: "fetched = Download raw" "etl_derive rng raw g0 = Inr (m, g1)" "df = bfill (ffill m)"
    by blast
  from etl_derive_columns[OF m(2)] have
    c: "getitem m ''CETES_28'' = Inr (map Fin (fst (cetes_28 rng (length (raw_idx raw)) g0)))"
       "g1 = snd (cetes_28 rng (length (raw_idx raw)) g0)" by auto
  have "NaN \<notin> set (map Fin (fst (cetes_28 rng (length (raw_idx raw)) g0)))" by auto
  then show ?thesis using m c by (simp add: getitem_fill fill_col_nan_free)
qed

lemma random_normal_nth:
  "k < n \<Longrightarrow>
     fst (random_normal rng loc scale n g) ! k =
       loc + scale * fst (gauss rng (((snd \<circ> gauss rng) ^^ k) g))"
proof (induction n arbitrary: g k)
  case 0
  then show ?case by simp
next
  case (Suc n)
  show ?case
  proof (cases k)
    case 0
    then show ?thesis by (simp add: Let_def case_prod_unfold)
  next
    case j: (Suc j)
    with Suc.prems have "j < n" by simp
    note ih = Suc.IH[OF this, of "snd (gauss rng g)"]
    have e: "((snd \<circ> gauss rng) ^^ Suc j) g = ((snd \<circ> gauss rng) ^^ j) (snd (gauss rng g))"
      by (simp only: funpow_Suc_right comp_apply)
    have l: "fst (random_normal rng loc scale (Suc n) g) ! Suc j =
             fst (random_normal rng loc scale n (snd (gauss rng g))) ! j"
      by (simp add: Let_def case_prod_unfold)
    show ?thesis unfolding j l e by (rule ih)
  qed
qed

lemma random_normal_state:
  "snd (random_normal rng loc scale n g) = ((snd \<circ> gauss rng) ^^ n) g"
proof (induction n arbitrary: g)
  case 0
  then show ?case by simp
next
  case (Suc n)
  have e: "((snd \<circ> gauss rng) ^^ Suc n) g = ((snd \<circ> gauss rng) ^^ n) (snd (gauss rng g))"
    by (simp only: funpow_Suc_right comp_apply)
  have l: "snd (random_normal rng loc scale (Suc n) g) =
           snd (random_normal rng loc scale n (snd (gauss rng g)))"
    by (simp add: Let_def case_prod_unfold)
  show ?case unfolding l e by (rule Suc.IH)
qed

lemma linspace_nth:
  "k < n \<Longrightarrow> linspace a b n ! k = a + real k * ((b - a) / real (n - 1))"
  by (auto simp: linspace_def)

lemma cetes_28_nth:
  assumes "k < n"
  shows "fst (cetes_28 rng n g0) ! k =
           10.5 + real k * ((11.25 - 10.5) / real (n - 1)) +
           (0 + 0.05 * fst (gauss rng (((snd \<circ> gauss rng) ^^ k) (seed rng 42))))"
  using assms
  by (simp add: cetes_28_seeded linspace_length random_normal_length
      linspace_nth random_normal_nth)

lemma cetes_28_length: "length (fst (cetes_28 rng n g0)) = n"
  by (simp add: cetes_28_seeded linspace_length random_normal_length)

text \<open>
  C4: the column \<open>CETES_28\<close> of a table that \<open>load_data\<close> returns depends on the
  number \<open>L\<close> of rows of the raw index and on nothing else: two loads of raw tables with
  the same number of rows, started in any two states of the generator, give the same
  column, cell for cell, and leave the generator in the same state, the one after \<open>L\<close>
  draws from the state that \<open>seed(42)\<close> sets. The column has \<open>L\<close> cells, and its cell at
  row \<open>k\<close> is the ramp's value \<open>10.5 + k * (11.25 - 10.5) / (L - 1)\<close> plus the noise
  \<open>0 + 0.05 * z\<close>, where \<open>z\<close> is the draw number \<open>k\<close> after \<open>seed(42)\<close>. From two rows on,
  the ramp starts at 10.5 and ends at 11.25.
\<close>

theorem cetes_deterministic:
  assumes "load_data rng (Download raw1) g1 = (df1, msgs1, h1)" "\<not> frame_empty df1"
    and "load_data rng (Download raw2) g2 = (df2, msgs2, h2)" "\<not> frame_empty df2"
    and "length (raw_idx raw1) = length (raw_idx raw2)"
  shows "getitem df1 ''CETES_28'' = getitem df2 ''CETES_28'' \<and>
         h1 = h2 \<and>
         h1 = ((snd \<circ> gauss rng) ^^ length (raw_idx raw1)) (seed rng 42) \<and>
         (\<exists>col. getitem df1 ''CETES_28'' = Inr col \<and>
            length col = length (raw_idx raw1) \<and>
            (\<forall>k < length (raw_idx raw1).
               col ! k =
                 Fin (10.5 + real k * ((11.25 - 10.5) / real (length (raw_idx raw1) - 1)) +
                      (0 + 0.05 * fst (gauss rng (((snd \<circ> gauss rng) ^^ k) (seed rng 42))))))) \<and>
         (2 \<le> length (raw_idx raw1) \<longrightarrow>
            hd (linspace 10.5 11.25 (length (raw_idx raw1))) = 10.5 \<and>
            last (linspace 10.5 11.25 (length (raw_idx raw1))) = 11.25)"
proof -
  let ?L = "length (raw_idx raw1)"
  from load_data_cetes[OF assms(1,2)] have
    a: "getitem df1 ''CETES_28'' = Inr (map Fin (fst (cetes_28 rng ?L g1)))"
       "h1 = snd (cetes_28 rng ?L g1)" by auto
  from load_data_cetes[OF assms(3,4)] have
    b: "getitem df2 ''CETES_28'' = Inr (map Fin (fst (cetes_28 rng (length (raw_idx raw2)) g2)))"
       "h2 = snd (cetes_28 rng (length (raw_idx raw2)) g2)" by auto
  have same: "getitem df1 ''CETES_28'' = getitem df2 ''CETES_28'' \<and> h1 = h2"
    using a b assms(5) by (simp add: cetes_28_seeded)
  have st: "h1 = ((snd \<circ> gauss rng) ^^ ?L) (seed rng 42)"
    using a(2) by (simp add: cetes_28_seeded random_normal_state)
  have len: "length (map Fin (fst (cetes_28 rng ?L g1))) = ?L"
    by (simp add: cetes_28_length)
  have cell: "map Fin (fst (cetes_28 rng ?L g1)) ! k =
      Fin (10.5 + real k * ((11.25 - 10.5) / real (?L - 1)) +
           (0 + 0.05 * fst (gauss rng (((snd \<circ> gauss rng) ^^ k) (seed rng 42)))))"
    if "k < ?L" for k
    using that cetes_28_nth[OF that, of rng g1] by (simp add: cetes_28_length)
  from a(1) len cell have col: "\<exists>col. getitem df1 ''CETES_28'' = Inr col \<and>
            length col = ?L \<and>
            (\<forall>k < ?L.
               col ! k =
                 Fin (10.5 + real k * ((11.25 - 10.5) / real (?L - 1)) +
                      (0 + 0.05 * fst (gauss rng (((snd \<circ> gauss rng) ^^ k) (seed rng 42))))))"
    by blast
  from same st col linspace_ends[of ?L "10.5" "11.25"] show ?thesis by blast
qed

lemma load_adj_close:
  "load_data demo_rng (Download raw_adj_close) 7 =
     (\<lparr>idx = [5, 6, 7],
       cols = [(''EUR_USD_Exchange'', [Fin 2, Fin 4, Fin 5]),
               (''USD_EUR'', [Fin 0.5, Fin 0.25, Fin 0.2]),
               (''CETES_28'', [Fin 10.5, Fin 10.925, Fin 11.35])]\<rparr>, [], 45)"
  by (simp add: etl_defs raw_adj_close_def numeral_3_eq_3 upt_0_3 Let_def)

theorem cetes_deterministic_witness:
  "getitem (fst (load_data demo_rng (Download raw_gappy) 0)) ''CETES_28'' =
     Inr [Fin 10.5, Fin 10.925, Fin 11.35] \<and>
   getitem (fst (load_data demo_rng (Download raw_adj_close) 7)) ''CETES_28'' =
     Inr [Fin 10.5, Fin 10.925, Fin 11.35] \<and>
   snd (snd (load_data demo_rng (Download raw_gappy) 0)) = 45 \<and>
   snd (snd (load_data demo_rng (Download raw_adj_close) 7)) = 45 \<and>
   hd (linspace 10.5 11.25 3) = 10.5 \<and> last (linspace 10.5 11.25 3) = 11.25"
proof -
  have ne1: "\<not> frame_empty df_gappy"
    by (simp add: df_gappy_def frame_empty_def)
  have l: "length (raw_idx raw_gappy) = length (raw_idx raw_adj_close)"
    by (simp add: raw_gappy_def raw_adj_close_def)
  have l3: "length (raw_idx raw_gappy) = 3"
    by (simp add: raw_gappy_def)
  have c: "getitem df_gappy ''CETES_28'' = Inr [Fin 10.5, Fin 10.925, Fin 11.35]"
    by (simp add: df_gappy_def getitem_def)
  from cetes_deterministic[OF load_gappy ne1 load_adj_close _ l] l3 c
  have "getitem (fst (load_data demo_rng (Download raw_adj_close) 7)) ''CETES_28'' =
          Inr [Fin 10.5, Fin 10.925, Fin 11.35] \<and>
        snd (snd (load_data demo_rng (Download raw_adj_close) 7)) =
          snd (snd (load_data demo_rng (Download raw_gappy) 0)) \<and>
        hd (linspace 10.5 11.25 3) = 10.5 \<and> last (linspace 10.5 11.25 3) = 11.25"
    by (simp add: load_gappy load_adj_close frame_empty_def)
  with c show ?thesis by (simp add: load_gappy)
qed

section \<open>Alerts\<close>

text \<open>
  C2: for every table whose last row has the three columns, and every three limits,
  \<open>get_alerts\<close> returns one alert for each rule whose comparison holds (USD/MXN strictly
  above its ceiling, the 10-year rate strictly above its ceiling, USD/EUR strictly below
  its floor), in that order and nothing else; it returns the empty list when none
  holds; and for the row (21.0, 5.0, 0.85) with the limits (20.5, 4.5, 0.90) it returns
  exactly the three alerts, in that order.
\<close>

theorem alerts_in_order:
  assumes "iloc_row current_data (- 1) = Inr last_row"
    and "row_get last_row ''USD_MXN'' = Inr mxn"
    and "row_get last_row ''US_Treasury_10Y'' = Inr tnx"
    and "row_get last_row ''USD_EUR'' = Inr eur"
  shows "get_alerts th current_data =
           Inr ((if fl_gt mxn (Fin (limit_usd_mxn th)) then [Critico (limit_usd_mxn th) mxn] else []) @
                (if fl_gt tnx (Fin (limit_treasury th)) then [Alerta (limit_treasury th) tnx] else []) @
                (if fl_lt eur (Fin (limit_usd_eur th)) then [Aviso eur] else [])) \<and>
         (\<not> fl_gt mxn (Fin (limit_usd_mxn th)) \<and> \<not> fl_gt tnx (Fin (limit_treasury th)) \<and>
          \<not> fl_lt eur (Fin (limit_usd_eur th)) \<longrightarrow> get_alerts th current_data = Inr []) \<and>
         (mxn = Fin 21.0 \<and> tnx = Fin 5.0 \<and> eur = Fin 0.85 \<and> th = spec_thresholds \<longrightarrow>
            get_alerts th current_data =
              Inr [Critico 20.5 (Fin 21.0), Alerta 4.5 (Fin 5.0), Aviso (Fin 0.85)])"
  using assms by (simp add: get_alerts_def evaluate_row_def Let_def spec_thresholds_def fl_lt_def)

lemma last_row_stressed:
  "iloc_row df_stressed (- 1) =
     Inr [(''USD_MXN'', Fin 21), (''US_Treasury_10Y'', Fin 5), (''USD_EUR'', Fin 0.85)]"
  by (simp add: iloc_row_def df_stressed_def)

lemma last_row_calm:
  "iloc_row df_calm (- 1) =
     Inr [(''USD_MXN'', Fin 20), (''US_Treasury_10Y'', Fin 4), (''USD_EUR'', Fin 0.95)]"
  by (simp add: iloc_row_def df_calm_def)

theorem alerts_in_order_witness:
  "get_alerts spec_thresholds df_stressed =
     Inr [Critico 20.5 (Fin 21.0), Alerta 4.5 (Fin 5.0), Aviso (Fin 0.85)] \<and>
   get_alerts spec_thresholds df_calm = Inr []"
proof -
  have a: "get_alerts spec_thresholds df_stressed =
     Inr [Critico 20.5 (Fin 21.0), Alerta 4.5 (Fin 5.0), Aviso (Fin 0.85)]"
    using alerts_in_order[OF last_row_stressed, of "Fin 21" "Fin 5" "Fin 0.85" spec_thresholds]
    by (simp add: row_get_def spec_thresholds_def fl_lt_def)
  have b: "get_alerts spec_thresholds df_calm = Inr []"
    using alerts_in_order[OF last_row_calm, of "Fin 20" "Fin 4" "Fin 0.95" spec_thresholds]
    by (simp add: row_get_def spec_thresholds_def fl_lt_def)
  from a b show ?thesis by simp
qed

section \<open>Windowing\<close>

lemma map_cols_id: "map (\<lambda>(name, c). (name, c)) ps = ps"
  by (induction ps) auto

lemma window_positive:
  assumes "0 < n"
  shows "window f n = trailing_rows (nat n) f \<and>
         (int (length (idx f)) \<le> n \<longrightarrow> window f n = f)"
proof -
  from assms have k: "slice_start (length (idx f)) (- n) = length (idx f) - nat n"
    by (auto simp: slice_start_def)
  have a: "window f n = trailing_rows (nat n) f"
    by (simp add: window_def iloc_from_def trailing_rows_def k Let_def)
  have "window f n = f" if "int (length (idx f)) \<le> n"
  proof -
    from that have "length (idx f) - nat n = 0" by simp
    then show ?thesis by (simp add: window_def iloc_from_def k map_cols_id Let_def)
  qed
  with a show ?thesis by simp
qed

text \<open>
  The lower bound of the slider matters to this: \<open>df.iloc[-0:]\<close> is \<open>df.iloc[0:]\<close>, the
  whole table, and not its trailing zero rows. The slider never gives 0.
\<close>

lemma window_zero_is_whole_table:
  "window df_gappy 0 = df_gappy \<and> length (idx (window df_gappy 0)) = 3 \<and>
   length (idx (trailing_rows 0 df_gappy)) = 0 \<and> \<not> slider_range 0"
  by (simp add: window_def iloc_from_def slice_start_def trailing_rows_def df_gappy_def
      slider_range_def)

text \<open>
  C5: for every table and every \<open>days_window\<close> that the slider of line 98 can give (30
  to 700), line 99 returns the trailing \<open>days_window\<close> rows by position, and when
  \<open>days_window\<close> is at least the number of rows it returns the whole table, unchanged.
  The slice raises nothing: the window is a table in every case.
\<close>

theorem window_trailing:
  assumes "slider_range days_window"
  shows "window f days_window = trailing_rows (nat days_window) f \<and>
         (int (length (idx f)) \<le> days_window \<longrightarrow> window f days_window = f)"
proof -
  from assms have "0 < days_window" by (simp add: slider_range_def)
  then show ?thesis by (rule window_positive)
qed

theorem window_trailing_witness:
  "slider_range 30 \<and>
   window df_growth 30 = trailing_rows 30 df_growth \<and>
   window df_growth 30 = \<lparr>idx = [1..<31], cols = [(''NVDA'', replicate 30 (Fin 2))]\<rparr> \<and>
   window df_gappy 30 = df_gappy"
proof -
  have s: "slider_range 30" by (simp add: slider_range_def)
  have a: "window df_growth 30 = trailing_rows 30 df_growth"
    using window_trailing[OF s, of df_growth] by simp
  have l: "int (length (idx df_gappy)) \<le> 30" by (simp add: df_gappy_def)
  have b: "window df_gappy 30 = df_gappy"
    using window_trailing[OF s, of df_gappy] l by blast
  have c: "trailing_rows 30 df_growth =
      \<lparr>idx = [1..<31], cols = [(''NVDA'', replicate 30 (Fin 2))]\<rparr>"
    by (simp add: trailing_rows_def df_growth_def)
  from s a b c show ?thesis by simp
qed

section \<open>KPI deltas\<close>

lemma row_get_iloc:
  "row_get (map (\<lambda>(name, c). (name, c ! j)) ps) key =
     (case map_of ps key of None \<Rightarrow> Inl (KeyError key) | Some c \<Rightarrow> Inr (c ! j))"
  by (simp add: row_get_def map_of_map split: option.splits)

lemma wf_frame_length:
  assumes "wf_frame f" "getitem f key = Inr c"
  shows "length c = length (idx f)"
proof -
  from assms(2) have "map_of (cols f) key = Some c"
    by (simp add: getitem_def split: option.splits)
  then have "(key, c) \<in> set (cols f)" by (rule map_of_SomeD)
  with assms(1) show ?thesis by (auto simp: wf_frame_def list_all_iff)
qed

text \<open>
  C10: on a table with at least two rows, the delta that \<open>show_kpi\<close> displays for a
  column (each of \<open>USD_MXN\<close>, \<open>USD_EUR\<close>, \<open>CETES_28\<close>, \<open>US_Treasury_10Y\<close>, and any
  other column the table has) is the column's last cell minus its second-to-last cell,
  by position; on a table with fewer than two rows the row access raises IndexError.
\<close>

theorem kpi_delta:
  "(2 \<le> length (idx f) \<and> wf_frame f \<and> getitem f key = Inr c \<longrightarrow>
      kpi f key = Inr (last c, fl_sub (last c) (c ! (length c - 2)))) \<and>
   (length (idx f) < 2 \<longrightarrow> kpi f key = Inl IndexError)"
proof (intro conjI impI)
  assume h: "2 \<le> length (idx f) \<and> wf_frame f \<and> getitem f key = Inr c"
  then have len: "length c = length (idx f)" using wf_frame_length by blast
  from h have m: "map_of (cols f) key = Some c"
    by (simp add: getitem_def split: option.splits)
  from h len have ne: "c \<noteq> []" "idx f \<noteq> []" by auto
  have n1: "nat (int (length (idx f)) - 1) = length c - 1"
    and n2: "nat (int (length (idx f)) - 2) = length c - 2"
    using len by auto
  show "kpi f key = Inr (last c, fl_sub (last c) (c ! (length c - 2)))"
    using h m ne
    by (simp add: kpi_def iloc_row_def show_kpi_def row_get_iloc n1 n2 last_conv_nth Let_def)
next
  assume "length (idx f) < 2"
  then show "kpi f key = Inl IndexError"
    by (auto simp: kpi_def iloc_row_def Let_def split: sum.splits)
qed

theorem kpi_delta_witness:
  "kpi df_stressed ''USD_MXN'' = Inr (Fin 21, Fin 1) \<and>
   kpi df_calm ''USD_MXN'' = Inl IndexError"
proof -
  have a: "2 \<le> length (idx df_stressed) \<and> wf_frame df_stressed \<and>
           getitem df_stressed ''USD_MXN'' = Inr [Fin 20, Fin 21]"
    by (simp add: df_stressed_def wf_frame_def getitem_def)
  have b: "length (idx df_calm) < 2" by (simp add: df_calm_def)
  from kpi_delta[of df_stressed "''USD_MXN''" "[Fin 20, Fin 21]"] a
  have "kpi df_stressed ''USD_MXN'' = Inr (Fin 21, Fin 1)" by (simp add: fl_sub_def)
  moreover from kpi_delta[of df_calm "''USD_MXN''" "[]"] b
  have "kpi df_calm ''USD_MXN'' = Inl IndexError" by simp
  ultimately show ?thesis by simp
qed

section \<open>The base-100 index\<close>

lemma growth_31: "index_nvda (window df_growth 31) = Inr (Fin 100 # replicate 30 (Fin 200))"
  by (simp add: index_nvda_def getitem_def window_def iloc_from_def slice_start_def
        df_growth_def norm_col_def)

lemma replicate_30: "replicate 30 x = x # replicate 29 x"
  by (simp add: eval_nat_numeral)

lemma norm_col_nth:
  "k < length c \<Longrightarrow> norm_col v c ! k = fl_mul (fl_div (c ! k) v) (Fin 100)"
  by (simp add: norm_col_def)

lemma norm_col_length: "length (norm_col v c) = length c"
  by (simp add: norm_col_def)

lemma growth_30: "index_nvda (window df_growth 30) = Inr (replicate 30 (Fin 100))"
proof -
  have "getitem (window df_growth 30) ''NVDA'' = Inr (replicate 30 (Fin 2))"
    by (simp add: getitem_def window_def iloc_from_def slice_start_def df_growth_def)
  moreover have "norm_col (Fin 2) (replicate 30 (Fin 2)) = replicate 30 (Fin 100)"
    by (simp add: norm_col_def)
  ultimately show ?thesis
    by (simp add: index_nvda_def replicate_30[of "Fin 2"] del: replicate_Suc)
qed

text \<open>
  C6: on a window whose \<open>NVDA\<close> column starts with the number \<open>V0\<close>, not zero,
  \<open>Index_NVDA\<close> has one cell per row, its first cell is 100, and its cell at every row
  \<open>k\<close> is the column's cell at \<open>k\<close>, divided by \<open>V0\<close>, times 100. The base is the first
  row of the window that is passed, so another window length gives other values: on a
  table where NVDA is 1 on the first of 31 days and 2 afterwards, the window of 31 days
  gives 100 and then 200 throughout, the window of 30 days gives 100 throughout.
\<close>

theorem index_nvda_base100:
  assumes "getitem w ''NVDA'' = Inr (Fin v0 # rest)" "v0 \<noteq> 0"
  shows "(\<exists>ix. index_nvda w = Inr ix \<and>
           length ix = length (Fin v0 # rest) \<and>
           ix ! 0 = Fin 100 \<and>
           (\<forall>k < length ix. ix ! k = fl_mul (fl_div ((Fin v0 # rest) ! k) (Fin v0)) (Fin 100))) \<and>
         index_nvda (window df_growth 31) = Inr (Fin 100 # replicate 30 (Fin 200)) \<and>
         index_nvda (window df_growth 30) = Inr (replicate 30 (Fin 100))"
proof -
  have a: "index_nvda w = Inr (norm_col (Fin v0) (Fin v0 # rest))"
    using assms(1) by (simp add: index_nvda_def)
  have b: "norm_col (Fin v0) (Fin v0 # rest) ! 0 = Fin 100"
    using assms(2) by (simp add: norm_col_def)
  have c: "norm_col (Fin v0) (Fin v0 # rest) ! k =
      fl_mul (fl_div ((Fin v0 # rest) ! k) (Fin v0)) (Fin 100)"
    if "k < length (norm_col (Fin v0) (Fin v0 # rest))" for k
    using that by (simp only: norm_col_nth norm_col_length)
  have d: "length (norm_col (Fin v0) (Fin v0 # rest)) = length (Fin v0 # rest)"
    by (rule norm_col_length)
  from a b c d have "\<exists>ix. index_nvda w = Inr ix \<and>
           length ix = length (Fin v0 # rest) \<and>
           ix ! 0 = Fin 100 \<and>
           (\<forall>k < length ix. ix ! k = fl_mul (fl_div ((Fin v0 # rest) ! k) (Fin v0)) (Fin 100))"
    by blast
  with growth_31 growth_30 show ?thesis by blast
qed

lemma growth_nvda: "getitem (window df_growth 31) ''NVDA'' = Inr (Fin 1 # replicate 30 (Fin 2))"
  by (simp add: getitem_def window_def iloc_from_def slice_start_def df_growth_def)

theorem index_nvda_base100_witness:
  "\<exists>ix. index_nvda (window df_growth 31) = Inr ix \<and> length ix = 31 \<and> ix ! 0 = Fin 100 \<and>
        ix ! 30 = Fin 200"
proof -
  have nz: "(1::real) \<noteq> 0" by simp
  from index_nvda_base100[OF growth_nvda nz] obtain ix where
    ix: "index_nvda (window df_growth 31) = Inr ix"
        "length ix = length (Fin 1 # replicate 30 (Fin 2))"
        "ix ! 0 = Fin 100"
        "\<forall>k < length ix. ix ! k = fl_mul (fl_div ((Fin 1 # replicate 30 (Fin 2)) ! k) (Fin 1)) (Fin 100)"
    by blast
  from ix(2) have l: "length ix = 31" by simp
  have "(Fin 1 # replicate 30 (Fin 2)) ! 30 = Fin 2" by simp
  with ix(4) l have "ix ! 30 = Fin 200" by simp
  with ix l show ?thesis by blast
qed

section \<open>Volatility\<close>

lemma volatility_col_short: "length c \<le> 2 \<Longrightarrow> volatility_col c = NaN"
proof -
  assume a: "length c \<le> 2"
  have "std_col (pct_change_col c) = NaN"
  proof (cases c)
    case Nil
    then show ?thesis by (simp add: std_col_def)
  next
    case (Cons x xs)
    note c = this
    show ?thesis
    proof (cases xs)
      case Nil
      with c show ?thesis by (simp add: std_col_def)
    next
      case (Cons y ys)
      with c a have "ys = []" by simp
      with c Cons show ?thesis by (simp add: std_col_def Let_def)
    qed
  qed
  then show ?thesis by (simp add: volatility_col_def)
qed

lemma pick_cols_members:
  "pick_cols ps ks = Inr r \<Longrightarrow> map fst r = ks \<and> (\<forall>(k, c) \<in> set r. map_of ps k = Some c)"
  by (induction ks arbitrary: r) (auto split: option.splits sum.splits)

lemma getitems_wf:
  assumes "getitems w ks = Inr sub" "wf_frame w"
  shows "map fst (cols sub) = ks \<and> (\<forall>(k, c) \<in> set (cols sub). length c = length (idx w))"
proof -
  from assms(1) obtain r where r: "pick_cols (cols w) ks = Inr r" "cols sub = r"
    by (auto simp: getitems_def split: sum.splits)
  from pick_cols_members[OF r(1)] have
    m: "map fst r = ks" "\<forall>(k, c) \<in> set r. map_of (cols w) k = Some c" by auto
  have "length c = length (idx w)" if "(k, c) \<in> set r" for k c
  proof -
    from that m(2) have "map_of (cols w) k = Some c" by auto
    then have "(k, c) \<in> set (cols w)" by (rule map_of_SomeD)
    with assms(2) show ?thesis by (auto simp: wf_frame_def list_all_iff)
  qed
  with m(1) r(2) show ?thesis by auto
qed

lemma volatility_three_rows: "volatility_col [Fin 1, Fin 2, Fin 3] \<noteq> NaN"
  by (simp add: volatility_col_def std_col_def fl_sum_def fl_sub_def Let_def)

text \<open>
  C7 (amended): when the window has the twelve stock columns, the volatility is computed
  without an exception, and for each symbol it is the sample standard deviation of the
  percentage changes, times the square root of 252, times 100. On a window of one row
  and on a window of two rows the result is NaN for every symbol, whatever the cells
  are: two rows give a single percentage change, and the sample standard deviation of a
  single value is NaN. Three rows can give a number.
\<close>

theorem volatility_short_window:
  assumes "getitems w ALL_STOCKS = Inr stocks"
  shows "volatility w =
           Inr (map (\<lambda>(name, c).
                  (name, fl_mul (fl_mul (std_col (pct_change_col c)) (Fin (sqrt 252))) (Fin 100)))
                (cols stocks)) \<and>
         (wf_frame w \<and> length (idx w) \<le> 2 \<longrightarrow>
            volatility w = Inr (map (\<lambda>name. (name, NaN)) ALL_STOCKS)) \<and>
         volatility_col [Fin 1, Fin 2, Fin 3] \<noteq> NaN"
proof -
  have a: "volatility w = Inr (map (\<lambda>(name, c). (name, volatility_col c)) (cols stocks))"
    using assms by (simp add: volatility_def)
  have "map (\<lambda>(name, c). (name, volatility_col c)) (cols stocks) =
        map (\<lambda>name. (name, NaN)) ALL_STOCKS"
    if h: "wf_frame w \<and> length (idx w) \<le> 2"
  proof -
    from getitems_wf[OF assms] h have
      g: "map fst (cols stocks) = ALL_STOCKS"
         "\<forall>(k, c) \<in> set (cols stocks). length c = length (idx w)" by auto
    have "map (\<lambda>(name, c). (name, volatility_col c)) (cols stocks) =
          map (\<lambda>(name, c). (name, NaN)) (cols stocks)"
      using g(2) h by (intro map_cong) (auto simp: volatility_col_short)
    also have "\<dots> = map (\<lambda>name. (name, NaN)) (map fst (cols stocks))"
      by (simp add: case_prod_unfold comp_def)
    finally show ?thesis using g(1) by simp
  qed
  with a volatility_three_rows show ?thesis
    by (simp add: volatility_col_def case_prod_unfold)
qed

lemma getitems_two_days:
  "getitems df_two_days ALL_STOCKS =
     Inr \<lparr>idx = [0, 1], cols = map (\<lambda>name. (name, [Fin 1, Fin 2])) ALL_STOCKS\<rparr>"
  by (simp add: getitems_def df_two_days_def ALL_STOCKS_def BIG_SEVEN_def CHOSEN_FIVE_def)

theorem volatility_short_window_witness:
  "volatility df_two_days = Inr (map (\<lambda>name. (name, NaN)) ALL_STOCKS)"
proof -
  have w: "wf_frame df_two_days \<and> length (idx df_two_days) \<le> 2"
    by (simp add: wf_frame_def df_two_days_def list_all_iff)
  from volatility_short_window[OF getitems_two_days] w show ?thesis by blast
qed

text \<open>
  C7, as stated, fails on a window of two rows: both rows are present and differ, and
  the volatility is NaN.
\<close>

theorem volatility_two_rows_is_nan:
  "volatility_col [Fin 1, Fin 2] = NaN"
  by (simp add: volatility_col_def std_col_def)

section \<open>Failure of the download\<close>

text \<open>
  C8: when the download raises, and when it returns an empty table, the run of the
  script ends at \<open>st.stop()\<close> with exactly one message shown (the one of the
  \<open>except\<close> branch, or the one of the empty download): no window, alert, KPI or insight
  is computed, and no table reaches them. The same holds for every failure of
  \<open>load_data\<close>, which the script sees as an empty table.
\<close>

theorem fetch_failure_stops:
  "script rng (DownloadRaises e) g0 days_window th = Stopped [CriticalEtlError e] \<and>
   (raw_empty raw \<longrightarrow> script rng (Download raw) g0 days_window th = Stopped [NoDataError]) \<and>
   (frame_empty (fst (load_data rng fetched g0)) \<longrightarrow>
      (\<exists>m. script rng fetched g0 days_window th = Stopped [m]))"
proof -
  have "\<exists>m. script rng fetched g0 days_window th = Stopped [m]"
    if h: "frame_empty (fst (load_data rng fetched g0))"
  proof -
    obtain df msgs g1 where l: "load_data rng fetched g0 = (df, msgs, g1)"
      by (cases "load_data rng fetched g0") auto
    with h have e: "frame_empty df" by simp
    from load_data_failure[OF l e] obtain m where "msgs = [m]"
      by (cases msgs) auto
    with l e show ?thesis by (simp add: script_def)
  qed
  then show ?thesis
    by (simp add: script_def load_data_def frame_empty_def empty_frame_def)
qed

lemma load_no_eur:
  "load_data demo_rng (Download raw_no_eur) 0 =
     (empty_frame, [CriticalEtlError (KeyError ''EUR_USD_Exchange'')], 0)"
  by (simp add: etl_defs raw_no_eur_def)

theorem fetch_failure_stops_witness:
  "script demo_rng (DownloadRaises (Raised ''timeout'')) 0 365 spec_thresholds =
     Stopped [CriticalEtlError (Raised ''timeout'')] \<and>
   raw_empty raw_nothing \<and>
   script demo_rng (Download raw_nothing) 0 365 spec_thresholds = Stopped [NoDataError] \<and>
   frame_empty (fst (load_data demo_rng (Download raw_no_eur) 0)) \<and>
   (\<exists>m. script demo_rng (Download raw_no_eur) 0 365 spec_thresholds = Stopped [m])"
proof -
  have e: "raw_empty raw_nothing"
    by (simp add: raw_empty_def raw_nothing_def)
  have f: "frame_empty (fst (load_data demo_rng (Download raw_no_eur) 0))"
    by (simp add: load_no_eur frame_empty_def empty_frame_def)
  from fetch_failure_stops[of demo_rng "Raised ''timeout''" 0 365 spec_thresholds raw_nothing
      "Download raw_no_eur"] e f
  show ?thesis by blast
qed

section \<open>What the relative performance writes\<close>

lemma set_col_fresh: "k \<notin> fst ` set ps \<Longrightarrow> set_col k v ps = ps @ [(k, v)]"
  by (induction ps) auto

lemma deref_same:
  assumes "objs s' p = objs s p"
    and "\<And>name v. (name, v) \<in> set (o_cols (objs s p)) \<Longrightarrow> bufs s' (base v) = bufs s (base v)"
  shows "deref s' p = deref s p"
proof -
  have "map (\<lambda>(name, v). (name, read_view s' v)) (o_cols (objs s p)) =
        map (\<lambda>(name, v). (name, read_view s v)) (o_cols (objs s p))"
    using assms(2) by (intro map_cong) (auto simp: read_view_def)
  then show ?thesis by (simp add: deref_def assms(1))
qed

lemma obj_window_new:
  assumes "obj_ok s df" "obj_window s df n = (w, s1)"
  shows "w \<noteq> df \<and> obj_ok s1 df \<and> obj_ok s1 w \<and> deref s1 df = deref s df \<and>
         deref s1 w = window (deref s df) n"
proof -
  let ?k = "slice_start (length (o_idx (objs s df))) (- n)"
  let ?r = "\<lparr>o_idx = drop ?k (o_idx (objs s df)),
             o_cols = map (\<lambda>(name, v). (name, v\<lparr>off := off v + ?k, len := len v - ?k\<rparr>))
                        (o_cols (objs s df))\<rparr>"
  from assms(2) have w: "w = next_obj s"
    and s1: "s1 = s\<lparr>objs := (objs s)(next_obj s := ?r), next_obj := Suc (next_obj s)\<rparr>"
    by (auto simp: obj_window_def obj_iloc_from_def new_obj_def Let_def)
  from assms(1) have lt: "df < next_obj s" by (simp add: obj_ok_def)
  then have ne: "w \<noteq> df" using w by simp
  have ok_df: "obj_ok s1 df" using assms(1) lt by (simp add: obj_ok_def s1)
  have ok_w: "obj_ok s1 w"
    using assms(1) by (auto simp: obj_ok_def s1 w list_all_iff)
  have d: "deref s1 df = deref s df"
    using lt by (intro deref_same) (simp_all add: s1)
  have "deref s1 w = window (deref s df) n"
    by (simp add: deref_def s1 w window_def iloc_from_def Let_def read_view_def
        case_prod_unfold comp_def drop_take add.commute)
  with ne ok_df ok_w d show ?thesis by simp
qed

lemma obj_setitem_other:
  assumes "obj_ok s q" "q \<noteq> p"
  shows "deref (obj_setitem s p k c) q = deref s q \<and> obj_ok (obj_setitem s p k c) q"
proof -
  have o: "objs (obj_setitem s p k c) q = objs s q"
    using assms(2) by (simp add: obj_setitem_def alloc_def Let_def)
  have b: "bufs (obj_setitem s p k c) (base v) = bufs s (base v)"
    if "(name, v) \<in> set (o_cols (objs s q))" for name v
  proof -
    from that assms(1) have "base v < next_buf s" by (auto simp: obj_ok_def list_all_iff)
    then show ?thesis by (simp add: obj_setitem_def alloc_def Let_def)
  qed
  have "deref (obj_setitem s p k c) q = deref s q"
    using o b by (rule deref_same)
  moreover have "obj_ok (obj_setitem s p k c) q"
    using assms by (auto simp: obj_ok_def list_all_iff obj_setitem_def alloc_def Let_def)
  ultimately show ?thesis by simp
qed

lemma obj_setitem_self:
  assumes "obj_ok s p" "k \<notin> fst ` set (cols (deref s p))"
  shows "idx (deref (obj_setitem s p k c) p) = idx (deref s p) \<and>
         cols (deref (obj_setitem s p k c) p) = cols (deref s p) @ [(k, c)] \<and>
         obj_ok (obj_setitem s p k c) p"
proof -
  let ?s' = "obj_setitem s p k c"
  let ?v = "\<lparr>base = next_buf s, off = 0, len = length c\<rparr>"
  have lab: "fst ` set (cols (deref s p)) = fst ` set (o_cols (objs s p))"
    by (force simp: deref_def)
  with assms(2) have fr: "k \<notin> fst ` set (o_cols (objs s p))" by simp
  have o: "o_cols (objs ?s' p) = o_cols (objs s p) @ [(k, ?v)]"
    and i: "o_idx (objs ?s' p) = o_idx (objs s p)"
    and b: "bufs ?s' = (bufs s)(next_buf s := c)"
    and n: "next_buf ?s' = Suc (next_buf s)" "next_obj ?s' = next_obj s"
    using fr by (simp_all add: obj_setitem_def alloc_def Let_def set_col_fresh)
  have old: "map (\<lambda>(name, v). (name, read_view ?s' v)) (o_cols (objs s p)) =
             map (\<lambda>(name, v). (name, read_view s v)) (o_cols (objs s p))"
    using assms(1) by (intro map_cong) (auto simp: obj_ok_def list_all_iff read_view_def b)
  have new: "read_view ?s' ?v = c" by (simp add: read_view_def b)
  have "cols (deref ?s' p) = cols (deref s p) @ [(k, c)]"
    using old new by (simp add: deref_def o)
  moreover have "idx (deref ?s' p) = idx (deref s p)" by (simp add: deref_def i)
  moreover have "obj_ok ?s' p"
    using assms(1) by (auto simp: obj_ok_def list_all_iff o n)
  ultimately show ?thesis by simp
qed

lemma index_nvda_cols:
  "cols w' = cols w @ qs \<Longrightarrow> getitem w ''NVDA'' = Inr c \<Longrightarrow> index_nvda w' = index_nvda w"
  by (auto simp: index_nvda_def getitem_def split: option.splits)

text \<open>
  C9: let \<open>df\<close> name a table object, let \<open>df_filtered\<close> be what line 99 returns for
  it, and let that window have the five traditional stocks and NVDA among its columns,
  at least one row, and neither index label. Then \<open>df_filtered\<close> is another object than
  \<open>df\<close>, holding the window of the table of \<open>df\<close>, and lines 253 to 257 run without
  an exception. Afterwards the table of \<open>df_filtered\<close> has the rows it had and the
  columns it had, with the cells they had, followed by exactly two new columns:
  \<open>Index_Tradicional\<close>, which at every row is the mean of the five base-100 columns,
  and \<open>Index_NVDA\<close>, the NVDA column divided by its first cell, times 100. This is the
  table that the computation gives on the window taken as a value. The table of \<open>df\<close>
  is, cell for cell, label for label, what it was before line 99. (An assignment to
  \<open>df\<close> itself would show in its table: \<open>obj_setitem_visible\<close>.)
\<close>

theorem relative_performance_frame:
  assumes ok: "obj_ok s df"
    and win: "obj_window s df days_window = (df_filtered, s1)"
    and chosen: "getitems (window (deref s df) days_window) CHOSEN_FIVE = Inr chosen"
    and rows: "idx (window (deref s df) days_window) \<noteq> []"
    and nvda: "getitem (window (deref s df) days_window) ''NVDA'' = Inr nvda" "nvda \<noteq> []"
    and new1: "''Index_Tradicional'' \<notin> fst ` set (cols (deref s df))"
    and new2: "''Index_NVDA'' \<notin> fst ` set (cols (deref s df))"
  shows "\<exists>s2 chosen_norm.
           obj_relative_performance s1 df_filtered = (None, s2) \<and>
           df_filtered \<noteq> df \<and>
           deref s1 df_filtered = window (deref s df) days_window \<and>
           base100 chosen = Inr chosen_norm \<and>
           map fst (cols chosen) = CHOSEN_FIVE \<and>
           length (mean_axis1 chosen_norm) = length (idx (window (deref s df) days_window)) \<and>
           (\<forall>i < length (idx (window (deref s df) days_window)).
              mean_axis1 chosen_norm ! i =
                row_mean (map (\<lambda>(name, c). base100_col c ! i) (cols chosen))) \<and>
           idx (deref s2 df_filtered) = idx (deref s1 df_filtered) \<and>
           cols (deref s2 df_filtered) =
             cols (deref s1 df_filtered) @
               [(''Index_Tradicional'', mean_axis1 chosen_norm),
                (''Index_NVDA'', norm_col (hd nvda) nvda)] \<and>
           relative_performance (deref s1 df_filtered) = Inr (deref s2 df_filtered) \<and>
           deref s1 df = deref s df \<and>
           deref s2 df = deref s df"
proof -
  let ?w = "window (deref s df) days_window"
  from obj_window_new[OF ok win] have
    w: "df_filtered \<noteq> df" "obj_ok s1 df" "obj_ok s1 df_filtered" "deref s1 df = deref s df"
       "deref s1 df_filtered = ?w" by auto
  have labels: "fst ` set (cols ?w) = fst ` set (cols (deref s df))"
    by (force simp: window_def iloc_from_def Let_def)
  have idxc: "idx chosen = idx ?w"
    using chosen by (auto simp: getitems_def split: sum.splits)
  with rows obtain cn where cn: "base100 chosen = Inr cn"
    by (simp add: base100_def)
  have lab5: "map fst (cols chosen) = CHOSEN_FIVE"
    using chosen pick_cols_members[of "cols ?w" CHOSEN_FIVE "cols chosen"]
    by (auto simp: getitems_def split: sum.splits)
  have cnf: "cn = \<lparr>idx = idx ?w, cols = map (\<lambda>(name, c). (name, base100_col c)) (cols chosen)\<rparr>"
    using cn rows idxc by (simp add: base100_def)
  have mlen: "length (mean_axis1 cn) = length (idx ?w)"
    by (simp add: mean_axis1_def cnf)
  have mrow: "mean_axis1 cn ! i = row_mean (map (\<lambda>(name, c). base100_col c ! i) (cols chosen))"
    if "i < length (idx ?w)" for i
    using that by (simp add: mean_axis1_def cnf case_prod_unfold comp_def)
  have it: "index_tradicional ?w = Inr (mean_axis1 cn)"
    by (simp add: index_tradicional_def chosen cn)
  obtain v0 rest where vr: "nvda = v0 # rest" using nvda(2) by (cases nvda) auto
  have nv0: "index_nvda ?w = Inr (norm_col (hd nvda) nvda)"
    using nvda(1) vr by (simp add: index_nvda_def)
  let ?s1' = "obj_setitem s1 df_filtered ''Index_Tradicional'' (mean_axis1 cn)"
  let ?s2 = "obj_setitem ?s1' df_filtered ''Index_NVDA'' (norm_col (hd nvda) nvda)"
  have n1: "''Index_Tradicional'' \<notin> fst ` set (cols (deref s1 df_filtered))"
    using new1 labels w(5) by simp
  from obj_setitem_self[OF w(3) n1, of "mean_axis1 cn"] have
    a: "idx (deref ?s1' df_filtered) = idx ?w"
       "cols (deref ?s1' df_filtered) = cols ?w @ [(''Index_Tradicional'', mean_axis1 cn)]"
       "obj_ok ?s1' df_filtered" using w(5) by auto
  from obj_setitem_other[OF w(2), of df_filtered "''Index_Tradicional''" "mean_axis1 cn"] w(1)
  have a': "deref ?s1' df = deref s df" "obj_ok ?s1' df" using w(4) by auto
  have nv1: "index_nvda (deref ?s1' df_filtered) = Inr (norm_col (hd nvda) nvda)"
    using index_nvda_cols[OF a(2) nvda(1)] nv0 by simp
  have n2: "''Index_NVDA'' \<notin> fst ` set (cols (deref ?s1' df_filtered))"
    using new2 labels a(2) by simp
  from obj_setitem_self[OF a(3) n2, of "norm_col (hd nvda) nvda"] have
    b: "idx (deref ?s2 df_filtered) = idx ?w"
       "cols (deref ?s2 df_filtered) =
          cols ?w @ [(''Index_Tradicional'', mean_axis1 cn),
                     (''Index_NVDA'', norm_col (hd nvda) nvda)]"
    using a(1,2) by auto
  from obj_setitem_other[OF a'(2), of df_filtered "''Index_NVDA''" "norm_col (hd nvda) nvda"] w(1)
  have b': "deref ?s2 df = deref s df" using a'(1) by auto
  have run: "obj_relative_performance s1 df_filtered = (None, ?s2)"
    by (simp add: obj_relative_performance_def w(5) it nv1 Let_def)
  have p1: "cols (setitem ?w ''Index_Tradicional'' (mean_axis1 cn)) =
      cols ?w @ [(''Index_Tradicional'', mean_axis1 cn)]"
    using new1 labels by (simp add: setitem_def set_col_fresh)
  have p2: "index_nvda (setitem ?w ''Index_Tradicional'' (mean_axis1 cn)) =
      Inr (norm_col (hd nvda) nvda)"
    using index_nvda_cols[OF p1 nvda(1)] nv0 by simp
  have n3: "''Index_NVDA'' \<notin> fst ` set (cols ?w @ [(''Index_Tradicional'', mean_axis1 cn)])"
    using new2 labels by simp
  have pure: "relative_performance ?w = Inr (deref ?s2 df_filtered)"
  proof -
    let ?f = "setitem (setitem ?w ''Index_Tradicional'' (mean_axis1 cn))
               ''Index_NVDA'' (norm_col (hd nvda) nvda)"
    have "relative_performance ?w = Inr ?f"
      by (simp add: relative_performance_def it p2 Let_def)
    moreover have "cols ?f = cols (deref ?s2 df_filtered)"
      using p1 n3 b(2) by (simp add: setitem_def set_col_fresh)
    moreover have "idx ?f = idx (deref ?s2 df_filtered)"
      using b(1) by (simp add: setitem_def)
    ultimately show ?thesis by simp
  qed
  from run w cn b b' pure lab5 mlen mrow show ?thesis by simp
qed


lemma obj_setitem_visible:
  assumes "obj_ok s p" "k \<notin> fst ` set (cols (deref s p))"
  shows "deref (obj_setitem s p k c) p \<noteq> deref s p"
proof -
  from obj_setitem_self[OF assms, of c] have
    "cols (deref (obj_setitem s p k c) p) = cols (deref s p) @ [(k, c)]" by simp
  then have "cols (deref (obj_setitem s p k c) p) \<noteq> cols (deref s p)" by simp
  then show ?thesis by auto
qed

lemma demo_table:
  "deref demo_store 0 =
     \<lparr>idx = [0..<31],
      cols = [(''JPM'', Fin 1 # replicate 30 (Fin 2)), (''KO'', Fin 1 # replicate 30 (Fin 3)),
              (''DIS'', Fin 1 # replicate 30 (Fin 4)), (''XOM'', Fin 1 # replicate 30 (Fin 5)),
              (''PFE'', Fin 1 # replicate 30 (Fin 6)), (''NVDA'', Fin 1 # replicate 30 (Fin 7))]\<rparr>"
  by (simp add: deref_def read_view_def demo_store_def demo_df_def)

lemma demo_window:
  "window (deref demo_store 0) 30 =
     \<lparr>idx = [1..<31],
      cols = [(''JPM'', replicate 30 (Fin 2)), (''KO'', replicate 30 (Fin 3)),
              (''DIS'', replicate 30 (Fin 4)), (''XOM'', replicate 30 (Fin 5)),
              (''PFE'', replicate 30 (Fin 6)), (''NVDA'', replicate 30 (Fin 7))]\<rparr>"
  by (simp add: demo_table window_def iloc_from_def slice_start_def)

theorem relative_performance_frame_witness:
  "fst (obj_window demo_store 0 30) = 1 \<and>
   fst (obj_relative_performance (snd (obj_window demo_store 0 30)) 1) = None \<and>
   map fst (cols (deref (snd (obj_relative_performance (snd (obj_window demo_store 0 30)) 1)) 1)) =
     [''JPM'', ''KO'', ''DIS'', ''XOM'', ''PFE'', ''NVDA'', ''Index_Tradicional'', ''Index_NVDA''] \<and>
   idx (deref (snd (obj_relative_performance (snd (obj_window demo_store 0 30)) 1)) 1) = [1..<31] \<and>
   getitem (deref (snd (obj_relative_performance (snd (obj_window demo_store 0 30)) 1)) 1)
     ''Index_NVDA'' = Inr (replicate 30 (Fin 100)) \<and>
   (\<exists>it. getitem (deref (snd (obj_relative_performance (snd (obj_window demo_store 0 30)) 1)) 1)
           ''Index_Tradicional'' = Inr it \<and> length it = 30 \<and> it ! 0 = Fin 100) \<and>
   deref (snd (obj_relative_performance (snd (obj_window demo_store 0 30)) 1)) 0 =
     deref demo_store 0"
proof -
  let ?s1 = "snd (obj_window demo_store 0 30)"
  have ok: "obj_ok demo_store 0"
    by (simp add: obj_ok_def demo_store_def demo_df_def)
  have w1: "fst (obj_window demo_store 0 30) = 1"
    by (simp add: obj_window_def obj_iloc_from_def new_obj_def Let_def demo_store_def)
  then have win: "obj_window demo_store 0 30 = (1, ?s1)"
    by (metis prod.collapse)
  have chosen: "getitems (window (deref demo_store 0) 30) CHOSEN_FIVE =
      Inr \<lparr>idx = [1..<31],
           cols = [(''JPM'', replicate 30 (Fin 2)), (''KO'', replicate 30 (Fin 3)),
              (''DIS'', replicate 30 (Fin 4)), (''XOM'', replicate 30 (Fin 5)),
              (''PFE'', replicate 30 (Fin 6))]\<rparr>"
    by (simp add: demo_window getitems_def CHOSEN_FIVE_def)
  have rows: "idx (window (deref demo_store 0) 30) \<noteq> []"
    by (simp add: demo_window)
  have nvda: "getitem (window (deref demo_store 0) 30) ''NVDA'' = Inr (replicate 30 (Fin 7))"
    by (simp add: demo_window getitem_def)
  have ne: "replicate 30 (Fin 7) \<noteq> []" by simp
  have new1: "''Index_Tradicional'' \<notin> fst ` set (cols (deref demo_store 0))"
    by (simp add: demo_table)
  have new2: "''Index_NVDA'' \<notin> fst ` set (cols (deref demo_store 0))"
    by (simp add: demo_table)
  from relative_performance_frame[OF ok win chosen rows nvda ne new1 new2]
  obtain s2 cn where
    r: "obj_relative_performance ?s1 1 = (None, s2)"
       "deref ?s1 1 = window (deref demo_store 0) 30"
       "idx (deref s2 1) = idx (deref ?s1 1)"
       "cols (deref s2 1) = cols (deref ?s1 1) @
           [(''Index_Tradicional'', mean_axis1 cn),
            (''Index_NVDA'', norm_col (hd (replicate 30 (Fin 7))) (replicate 30 (Fin 7)))]"
       "deref s2 0 = deref demo_store 0"
       "base100 \<lparr>idx = [1..<31],
           cols = [(''JPM'', replicate 30 (Fin 2)), (''KO'', replicate 30 (Fin 3)),
              (''DIS'', replicate 30 (Fin 4)), (''XOM'', replicate 30 (Fin 5)),
              (''PFE'', replicate 30 (Fin 6))]\<rparr> = Inr cn"
       "length (mean_axis1 cn) = length (idx (window (deref demo_store 0) 30))"
       "\<forall>i < length (idx (window (deref demo_store 0) 30)).
              mean_axis1 cn ! i =
                row_mean (map (\<lambda>(name, c). base100_col c ! i)
                  [(''JPM'', replicate 30 (Fin 2)), (''KO'', replicate 30 (Fin 3)),
              (''DIS'', replicate 30 (Fin 4)), (''XOM'', replicate 30 (Fin 5)),
              (''PFE'', replicate 30 (Fin 6))])"
    by auto
  have b100: "base100_col (replicate 30 (Fin x)) ! 0 = fl_mul (fl_div (Fin x) (Fin x)) (Fin 100)" for x
    by (simp add: base100_col_def norm_col_def replicate_30[of "Fin x"] del: replicate_Suc)
  have l30: "length (mean_axis1 cn) = 30" using r(7) by (simp add: demo_window)
  have "mean_axis1 cn ! 0 = Fin 100"
    using r(8) by (simp add: demo_window b100 row_mean_def fl_sum_def)
  note it0 = this l30
  have n: "norm_col (hd (replicate 30 (Fin 7))) (replicate 30 (Fin 7)) = replicate 30 (Fin 100)"
    by (simp add: norm_col_def)
  from r(1-5) n w1 it0 show ?thesis
    by (simp add: demo_window getitem_def)
qed

end
